theory Spec2Isabelle
  imports Main "HOL-Library.Word" "HOL-Library.Code_Target_Numeral"
begin

section \<open>Buffered file stream (libim/io/filestream): data model\<close>

text \<open>
  The development embeds the POSIX branch of the implementation file of \<open>FileStream\<close>
  (the \<open>#else\<close> arms of the \<open>OS_WINDOWS\<close> conditionals).

  \<^item> \<open>byte_t\<close> is an 8-bit word.
  \<^item> \<open>std::size_t\<close> is 64 bits wide and its values are natural numbers here.  In
    \<open>write\<close> every length is the length of the byte sequence that is passed, a buffer
    that lives in memory, and \<open>currentOffset\<close> is a position that \<open>lseek\<close> has accepted
    as a non-negative \<open>off_t\<close> or the end of a write below the size guard, so these
    additions stay below \<open>2 ^ 64\<close>.  The requested length of \<open>readsome\<close> is a bare
    number, so the addition in its clamp test is taken modulo \<open>2 ^ 64\<close>, as the source
    computes it.  The one subtraction, \<open>fileSize - currentOffset\<close>, is only evaluated
    with \<open>currentOffset \<le> fileSize\<close>, which every stream keeps (section on the cursor
    invariant below).
  \<^item> A C++ exception leaves the object as the throwing statement found it, so every
    operation returns its outcome together with the object and the operating-system state
    after the call; \<open>Inl\<close> is the exception.
\<close>

type_synonym byte_t = "8 word"

definition kBufferSize :: nat where
  "kBufferSize = 4096"

definition MAX_WRITE_FILE_SIZE :: nat where
  "MAX_WRITE_FILE_SIZE = 1000000000"

text \<open>
  \<open>enum Mode\<close>.  \<open>OtherMode\<close> stands for any value outside the three enumerators, which the
  \<open>default:\<close> arm of the constructor's \<open>switch\<close> rejects.
\<close>

datatype Mode = Read | Write | ReadWrite | OtherMode

text \<open>
  The source throws one exception class, \<open>FileStreamError\<close>, told apart by its message.
  The constructors name the kinds the specification gives to these messages:
  \<^item> \<open>OpenError\<close>: "Unknown file open mode!", the \<open>strerror\<close> text of a failed \<open>open\<close>, and
    "Error getting the file size: ...";
  \<^item> \<open>ReadError\<close>: "Failed to read from file: ...";
  \<^item> \<open>WriteError\<close>: "Failed to write data to file: ...";
  \<^item> \<open>SeekError\<close>: "Failed to seek to position: ...";
  \<^item> \<open>SizeLimitExceeded\<close>: "Wrote to max file size limit";
  \<^item> \<open>UseAfterClose\<close>: the sixth kind of the specification; no statement of the source
    throws it.
\<close>

datatype error =
  OpenError | ReadError | WriteError | SeekError | SizeLimitExceeded | UseAfterClose

subsection \<open>IOBuffer\<close>

text \<open>
  \<open>IOBuffer<kBufferSize>\<close> is an array with a cursor \<open>pos_\<close>.  Only the bytes in
  \<open>[begin, pos_)\<close> are ever read back (by \<open>flush\<close>), so the buffer is the list of these
  staged bytes and \<open>pos_ - begin\<close> is its length.  The member \<open>buffer_\<close> of
  \<open>FileStreamImpl\<close> is the field \<open>buffer\<close> below.
\<close>

type_synonym IOBuffer = "byte_t list"

definition IOBuffer_write :: "IOBuffer \<Rightarrow> byte_t list \<Rightarrow> nat \<Rightarrow> nat \<times> IOBuffer" where
  "IOBuffer_write buf data sz =
     (let nWrite = kBufferSize - length buf;
          nWrite = (if sz < nWrite then sz else nWrite)
      in (nWrite, buf @ take nWrite data))"

definition IOBuffer_size :: "IOBuffer \<Rightarrow> nat" where
  "IOBuffer_size buf = length buf"

definition IOBuffer_capacity :: "IOBuffer \<Rightarrow> nat" where
  "IOBuffer_capacity buf = kBufferSize"

definition IOBuffer_hasData :: "IOBuffer \<Rightarrow> bool" where
  "IOBuffer_hasData buf = (buf \<noteq> [])"

definition IOBuffer_reset :: "IOBuffer \<Rightarrow> IOBuffer" where
  "IOBuffer_reset buf = []"

subsection \<open>The native file\<close>

text \<open>
  The operating system, as far as the stream sees it: the file that \<open>filePath\<close> names and
  one descriptor on it, with the calls the source makes (\<open>std::filesystem::remove\<close>,
  \<open>open\<close>, \<open>fstat\<close>, \<open>::read\<close>, \<open>::write\<close>, \<open>lseek\<close>, \<open>fsync\<close>, \<open>::close\<close>) as POSIX
  defines them for a regular file.  \<open>fdnum\<close> is the number of that descriptor: while no
  descriptor is open it is the lowest free number, the one the next \<open>open\<close> hands out
  (3 beside the three standard streams, 0 in a process whose standard input is closed).
  \<open>wfaults\<close> and \<open>rfaults\<close> script what the next calls of
  \<open>::write\<close> and \<open>::read\<close> do instead of transferring everything: fail with \<open>-1\<close>, or
  transfer at most so many bytes.  With an empty script every call transfers all it can.
  \<open>calls\<close> records the system calls issued, oldest first.
\<close>

datatype accmode = O_RDONLY | O_WRONLY | O_RDWR

datatype fault = Fail | Short nat

datatype syscall =
  SysOpen | SysRead int nat | SysWrite int "byte_t list" | SysLseek int nat
  | SysFsync int | SysClose int

record os =
  fdnum :: nat
  disk :: "byte_t list option"
  acc :: "accmode option"
  pos :: nat
  wfaults :: "fault list"
  rfaults :: "fault list"
  calls :: "syscall list"

definition fs_remove :: "os \<Rightarrow> os" where
  "fs_remove s = s\<lparr>disk := None\<rparr>"

text \<open>
  \<open>open(path, flags, 0600)\<close>: \<open>O_RDONLY\<close> needs an existing file; the two writing modes are
  opened with \<open>O_CREAT | O_TRUNC\<close>, so the file exists and is empty afterwards.  The call
  returns the lowest free descriptor number.  The model follows one descriptor, the one
  opened last: when the descriptor opened before is still open, the new one gets the next
  number and the earlier one is followed no longer.
\<close>

definition sys_open :: "os \<Rightarrow> accmode \<Rightarrow> int option \<times> os" where
  "sys_open s a =
     (let s1 = s\<lparr>calls := calls s @ [SysOpen]\<rparr>;
          d = (if acc s = None then fdnum s else fdnum s + 1)
      in if a = O_RDONLY then
           (if disk s = None then (None, s1)
            else (Some (int d), s1\<lparr>fdnum := d, acc := Some a, pos := 0\<rparr>))
         else (Some (int d), s1\<lparr>fdnum := d, disk := Some [], acc := Some a, pos := 0\<rparr>))"

text \<open>
  \<open>fstat\<close> for the size: \<open>st_size\<close> is an \<open>off_t\<close>, and a size that does not fit is the
  error \<open>EOVERFLOW\<close>.
\<close>

definition sys_fstat_size :: "os \<Rightarrow> int \<Rightarrow> nat option" where
  "sys_fstat_size s d =
     (if d = int (fdnum s) \<and> acc s \<noteq> None then
        (case disk s of
           None \<Rightarrow> None
         | Some c \<Rightarrow> if length c < 2 ^ 63 then Some (length c) else None)
      else None)"

text \<open>Bytes \<open>ws\<close> stored at offset \<open>p\<close> of content \<open>c\<close>; a gap before \<open>p\<close> reads as zeros.\<close>

definition store :: "byte_t list \<Rightarrow> nat \<Rightarrow> byte_t list \<Rightarrow> byte_t list" where
  "store c p ws =
     (if ws = [] then c
      else take p c @ replicate (p - length c) 0 @ ws @ drop (p + length ws) c)"

definition transfer :: "fault list \<Rightarrow> nat \<Rightarrow> nat" where
  "transfer fs n = (case fs of Short k # _ \<Rightarrow> min k n | _ \<Rightarrow> n)"

definition sys_write :: "os \<Rightarrow> int \<Rightarrow> byte_t list \<Rightarrow> nat option \<times> os" where
  "sys_write s d bs =
     (let s1 = s\<lparr>calls := calls s @ [SysWrite d bs]\<rparr> in
      if d \<noteq> int (fdnum s) \<or> (acc s \<noteq> Some O_WRONLY \<and> acc s \<noteq> Some O_RDWR)
      then (None, s1)
      else case disk s of
        None \<Rightarrow> (None, s1)
      | Some c \<Rightarrow>
          if wfaults s \<noteq> [] \<and> hd (wfaults s) = Fail then (None, s1\<lparr>wfaults := tl (wfaults s)\<rparr>)
          else
            let ws = take (transfer (wfaults s) (length bs)) bs in
            (Some (length ws),
             s1\<lparr>disk := Some (store c (pos s) ws), pos := pos s + length ws,
                wfaults := tl (wfaults s)\<rparr>))"

text \<open>
  \<open>::read(fd, data, length)\<close>: a count above \<open>SSIZE_MAX\<close> is refused (\<open>EINVAL\<close>; no buffer
  of that size exists).
\<close>

definition sys_read :: "os \<Rightarrow> int \<Rightarrow> nat \<Rightarrow> byte_t list option \<times> os" where
  "sys_read s d n =
     (let s1 = s\<lparr>calls := calls s @ [SysRead d n]\<rparr> in
      if d \<noteq> int (fdnum s) \<or> (acc s \<noteq> Some O_RDONLY \<and> acc s \<noteq> Some O_RDWR) \<or> 2 ^ 63 \<le> n
      then (None, s1)
      else case disk s of
        None \<Rightarrow> (None, s1)
      | Some c \<Rightarrow>
          if rfaults s \<noteq> [] \<and> hd (rfaults s) = Fail then (None, s1\<lparr>rfaults := tl (rfaults s)\<rparr>)
          else
            let bs = take (transfer (rfaults s) n) (drop (pos s) c) in
            (Some bs, s1\<lparr>pos := pos s + length bs, rfaults := tl (rfaults s)\<rparr>))"

text \<open>\<open>lseek(fd, position, SEEK_SET)\<close>: the position is converted to the signed \<open>off_t\<close>.\<close>

definition sys_lseek :: "os \<Rightarrow> int \<Rightarrow> nat \<Rightarrow> nat option \<times> os" where
  "sys_lseek s d p =
     (let s1 = s\<lparr>calls := calls s @ [SysLseek d p]\<rparr> in
      if d \<noteq> int (fdnum s) \<or> acc s = None \<or> 2 ^ 63 \<le> p then (None, s1)
      else (Some p, s1\<lparr>pos := p\<rparr>))"

definition sys_fsync :: "os \<Rightarrow> int \<Rightarrow> os" where
  "sys_fsync s d = s\<lparr>calls := calls s @ [SysFsync d]\<rparr>"

definition sys_close :: "os \<Rightarrow> int \<Rightarrow> os" where
  "sys_close s d =
     (let s1 = s\<lparr>calls := calls s @ [SysClose d]\<rparr> in
      if d = int (fdnum s) then s1\<lparr>acc := None\<rparr> else s1)"

subsection \<open>FileStreamImpl\<close>

record FileStreamImpl =
  mode :: Mode
  filePath :: string
  fileSize :: nat
  currentOffset :: nat
  buffer :: IOBuffer
  fd :: int

definition open_flags :: "Mode \<Rightarrow> accmode option" where
  "open_flags m =
     (case m of Read \<Rightarrow> Some O_RDONLY | Write \<Rightarrow> Some O_WRONLY
      | ReadWrite \<Rightarrow> Some O_RDWR | OtherMode \<Rightarrow> None)"

definition FileStreamImpl_init ::
  "string \<Rightarrow> bool \<Rightarrow> Mode \<Rightarrow> os \<Rightarrow> (error + FileStreamImpl) \<times> os" where
  "FileStreamImpl_init fp trunc m s =
     (let s0 = (if trunc \<and> m \<noteq> Read then fs_remove s else s) in
      case open_flags m of
        None \<Rightarrow> (Inl OpenError, s0)
      | Some flags \<Rightarrow>
          (case sys_open s0 flags of
             (None, s1) \<Rightarrow> (Inl OpenError, s1)
           | (Some d, s1) \<Rightarrow>
               (case sys_fstat_size s1 d of
                  None \<Rightarrow> (Inl OpenError, s1)
                | Some sz \<Rightarrow>
                    (Inr \<lparr>mode = m, filePath = fp, fileSize = sz, currentOffset = 0,
                          buffer = [], fd = d\<rparr>, s1))))"

definition FileStreamImpl_read ::
  "FileStreamImpl \<Rightarrow> os \<Rightarrow> nat \<Rightarrow> (error + byte_t list) \<times> FileStreamImpl \<times> os" where
  "FileStreamImpl_read st s len =
     (case sys_read s (fd st) len of
        (None, s1) \<Rightarrow> (Inl ReadError, st, s1)
      | (Some bs, s1) \<Rightarrow>
          (Inr bs, st\<lparr>currentOffset := currentOffset st + length bs\<rparr>, s1))"

definition FileStreamImpl_flush ::
  "FileStreamImpl \<Rightarrow> os \<Rightarrow> (error + nat) \<times> FileStreamImpl \<times> os" where
  "FileStreamImpl_flush st s =
     (if (mode st = Write \<or> mode st = ReadWrite) \<and> IOBuffer_hasData (buffer st) then
        (case sys_write s (fd st) (buffer st) of
           (None, s1) \<Rightarrow> (Inl WriteError, st, s1)
         | (Some nWritten, s1) \<Rightarrow>
             (Inr nWritten, st\<lparr>buffer := IOBuffer_reset (buffer st)\<rparr>, s1))
      else (Inr 0, st, s))"

text \<open>
  One pass through the body of the \<open>do ... while\<close> loop of \<open>write\<close>: either the call is over
  (\<open>return nFlushed\<close> or a \<open>throw\<close>), or the loop condition is reached with a new
  \<open>nTotalWritten\<close>.  The pointer \<open>data\<close> of the source is \<open>drop nTotalWritten data\<close> here.
\<close>

datatype step =
  Stop "(error + nat) \<times> FileStreamImpl \<times> os"
  | Continue FileStreamImpl os nat

text \<open>The end of the body: \<open>nTotalWritten += nWritten\<close> is done, the size guard follows.\<close>

definition write_limit_check :: "FileStreamImpl \<Rightarrow> os \<Rightarrow> nat \<Rightarrow> step" where
  "write_limit_check st s nTotalWritten =
     (if MAX_WRITE_FILE_SIZE \<le> currentOffset st + nTotalWritten
      then Stop (Inl SizeLimitExceeded, st, s)
      else Continue st s nTotalWritten)"

definition write_body :: "FileStreamImpl \<Rightarrow> os \<Rightarrow> byte_t list \<Rightarrow> nat \<Rightarrow> step" where
  "write_body st s data nTotalWritten =
     (case IOBuffer_write (buffer st) (drop nTotalWritten data) (length data - nTotalWritten) of
        (nWritten, buf) \<Rightarrow>
          if nWritten < length data then
            (case FileStreamImpl_flush (st\<lparr>buffer := buf\<rparr>) s of
               (Inl e, st2, s2) \<Rightarrow> Stop (Inl e, st2, s2)
             | (Inr nFlushed, st2, s2) \<Rightarrow>
                 if nFlushed < nWritten then Stop (Inr nFlushed, st2, s2)
                 else write_limit_check st2 s2 (nTotalWritten + nWritten))
          else write_limit_check (st\<lparr>buffer := buf\<rparr>) s (nTotalWritten + nWritten))"

text \<open>
  The loop may run forever (a full buffer on a stream that \<open>flush\<close> does not serve), so it
  is a partial function: \<open>None\<close> is a call that never returns.
\<close>

partial_function (option) write_loop ::
  "FileStreamImpl \<Rightarrow> os \<Rightarrow> byte_t list \<Rightarrow> nat \<Rightarrow> ((error + nat) \<times> FileStreamImpl \<times> os) option"
where
  "write_loop st s data nTotalWritten =
     (case write_body st s data nTotalWritten of
        Stop r \<Rightarrow> Some r
      | Continue st1 s1 n \<Rightarrow>
          if n < length data then write_loop st1 s1 data n
          else
            (let st2 = st1\<lparr>currentOffset := currentOffset st1 + n\<rparr>;
                 st3 = (if fileSize st2 < currentOffset st2
                        then st2\<lparr>fileSize := currentOffset st2\<rparr> else st2)
             in Some (Inr n, st3, s1)))"

declare write_loop.simps [code]

definition FileStreamImpl_write ::
  "FileStreamImpl \<Rightarrow> os \<Rightarrow> byte_t list \<Rightarrow> ((error + nat) \<times> FileStreamImpl \<times> os) option" where
  "FileStreamImpl_write st s data = write_loop st s data 0"

definition FileStreamImpl_seek ::
  "FileStreamImpl \<Rightarrow> os \<Rightarrow> nat \<Rightarrow> (error + unit) \<times> FileStreamImpl \<times> os" where
  "FileStreamImpl_seek st s position =
     (case FileStreamImpl_flush st s of
        (Inl e, st1, s1) \<Rightarrow> (Inl e, st1, s1)
      | (Inr _, st1, s1) \<Rightarrow>
          (case sys_lseek s1 (fd st1) position of
             (None, s2) \<Rightarrow> (Inl SeekError, st1, s2)
           | (Some _, s2) \<Rightarrow>
               (let st2 = st1\<lparr>currentOffset := position\<rparr>;
                    st3 = (if fileSize st2 < currentOffset st2
                           then st2\<lparr>fileSize := currentOffset st2\<rparr> else st2)
                in (Inr (), st3, s2))))"

definition FileStreamImpl_close ::
  "FileStreamImpl \<Rightarrow> os \<Rightarrow> (error + unit) \<times> FileStreamImpl \<times> os" where
  "FileStreamImpl_close st s =
     (case FileStreamImpl_flush st s of
        (Inl e, st1, s1) \<Rightarrow> (Inl e, st1, s1)
      | (Inr _, st1, s1) \<Rightarrow>
          if 0 < fd st1 then
            (let s2 = (if mode st1 = Write \<or> mode st1 = ReadWrite
                       then sys_fsync s1 (fd st1) else s1);
                 s3 = sys_close s2 (fd st1)
             in (Inr (), st1\<lparr>fd := - 1\<rparr>, s3))
          else (Inr (), st1, s1))"

subsection \<open>FileStream\<close>

text \<open>
  \<open>FileStream\<close> holds a shared pointer \<open>m_fs\<close> to the \<open>FileStreamImpl\<close> and forwards to it.
\<close>

definition FileStream_writesome ::
  "FileStreamImpl \<Rightarrow> os \<Rightarrow> byte_t list \<Rightarrow> ((error + nat) \<times> FileStreamImpl \<times> os) option" where
  "FileStream_writesome st s data = FileStreamImpl_write st s data"

definition FileStream_seek ::
  "FileStreamImpl \<Rightarrow> os \<Rightarrow> nat \<Rightarrow> (error + unit) \<times> FileStreamImpl \<times> os" where
  "FileStream_seek st s position = FileStreamImpl_seek st s position"

definition FileStream_size :: "FileStreamImpl \<Rightarrow> nat" where
  "FileStream_size st = fileSize st"

definition FileStream_tell :: "FileStreamImpl \<Rightarrow> nat" where
  "FileStream_tell st = currentOffset st"

definition FileStream_canRead :: "FileStreamImpl \<Rightarrow> bool" where
  "FileStream_canRead st = (mode st = Read \<or> mode st = ReadWrite)"

definition FileStream_canWrite :: "FileStreamImpl \<Rightarrow> bool" where
  "FileStream_canWrite st = (mode st = Write \<or> mode st = ReadWrite)"

definition FileStream_close ::
  "FileStreamImpl \<Rightarrow> os \<Rightarrow> (error + unit) \<times> FileStreamImpl \<times> os" where
  "FileStream_close st s = FileStreamImpl_close st s"

text \<open>
  \<open>readsome\<close>: the requested length is a \<open>std::size_t\<close>, and so is the sum in the clamp
  test, which wraps at \<open>2 ^ 64\<close>.
\<close>

definition FileStream_readsome ::
  "FileStreamImpl \<Rightarrow> os \<Rightarrow> nat \<Rightarrow> (error + byte_t list) \<times> FileStreamImpl \<times> os" where
  "FileStream_readsome st s len =
     (let len1 = (if fileSize st \<le> (currentOffset st + len) mod 2 ^ 64
                  then fileSize st - currentOffset st else len)
      in FileStreamImpl_read st s len1)"

subsection \<open>Clients and observers used by the properties\<close>

text \<open>
  The operating system serves the stream's native writes (reads): the stream's descriptor
  is the open one, it was opened with write (read) access, the file exists and no fault
  is scripted.
\<close>

definition write_ready :: "FileStreamImpl \<Rightarrow> os \<Rightarrow> bool" where
  "write_ready st s =
     (fd st = int (fdnum s) \<and> (acc s = Some O_WRONLY \<or> acc s = Some O_RDWR) \<and> disk s \<noteq> None
      \<and> wfaults s = [])"

definition read_ready :: "FileStreamImpl \<Rightarrow> os \<Rightarrow> bool" where
  "read_ready st s =
     (fd st = int (fdnum s) \<and> (acc s = Some O_RDONLY \<or> acc s = Some O_RDWR) \<and> disk s \<noteq> None
      \<and> rfaults s = [])"

fun is_SysWrite :: "syscall \<Rightarrow> bool" where
  "is_SysWrite (SysWrite d bs) = True"
| "is_SysWrite c = False"

text \<open>The number of native \<open>::write\<close> calls issued so far.\<close>

definition native_writes :: "os \<Rightarrow> nat" where
  "native_writes s = length (filter is_SysWrite (calls s))"

text \<open>
  An operating system before the first \<open>open\<close>: no file, no descriptor open (3 is the
  lowest free number), no fault.
\<close>

definition os_fresh :: os where
  "os_fresh = \<lparr>fdnum = 3, disk = None, acc = None, pos = 0, wfaults = [], rfaults = [], calls = []\<rparr>"

text \<open>
  A caller's sequence of operations on one stream.  An operation that throws leaves the
  stream as the exception found it and the caller goes on; a \<open>write\<close> that never returns
  ends the run (\<open>None\<close>).
\<close>

datatype op = OpRead nat | OpWrite "byte_t list" | OpSeek nat | OpClose

fun apply_op :: "op \<Rightarrow> FileStreamImpl \<times> os \<Rightarrow> (FileStreamImpl \<times> os) option" where
  "apply_op (OpRead n) (st, s) = Some (snd (FileStream_readsome st s n))"
| "apply_op (OpWrite d) (st, s) = map_option snd (FileStream_writesome st s d)"
| "apply_op (OpSeek p) (st, s) = Some (snd (FileStream_seek st s p))"
| "apply_op OpClose (st, s) = Some (snd (FileStream_close st s))"

fun run :: "op list \<Rightarrow> FileStreamImpl \<times> os \<Rightarrow> (FileStreamImpl \<times> os) option" where
  "run [] w = Some w"
| "run (x # xs) w = (case apply_op x w of None \<Rightarrow> None | Some w1 \<Rightarrow> run xs w1)"

text \<open>
  The round trip: open the file in mode \<open>m\<close>, write \<open>data\<close>, close, open it again in
  \<open>Read\<close> mode and read \<open>len\<close> bytes from offset 0.  The length passed to \<open>readsome\<close> is a
  \<open>std::size_t\<close>: a larger number stands for the largest one.
\<close>

definition write_then_read ::
  "os \<Rightarrow> string \<Rightarrow> bool \<Rightarrow> Mode \<Rightarrow> byte_t list \<Rightarrow> nat \<Rightarrow> (error + byte_t list) option" where
  "write_then_read s0 fp trunc m data len =
     (case FileStreamImpl_init fp trunc m s0 of
        (Inl e, s1) \<Rightarrow> Some (Inl e)
      | (Inr st1, s1) \<Rightarrow>
          (case FileStream_writesome st1 s1 data of
             None \<Rightarrow> None
           | Some (Inl e, st2, s2) \<Rightarrow> Some (Inl e)
           | Some (Inr n, st2, s2) \<Rightarrow>
               (case FileStream_close st2 s2 of
                  (Inl e, st3, s3) \<Rightarrow> Some (Inl e)
                | (Inr u, st3, s3) \<Rightarrow>
                    (case FileStreamImpl_init fp False Read s3 of
                       (Inl e, s4) \<Rightarrow> Some (Inl e)
                     | (Inr st4, s4) \<Rightarrow>
                         Some (fst (FileStream_readsome st4 s4 (min len (2 ^ 64 - 1))))))))"

section \<open>Evaluation\<close>

text \<open>The defining equations that compute an operation on a concrete stream.\<close>

lemmas model_defs =
  kBufferSize_def MAX_WRITE_FILE_SIZE_def os_fresh_def
  IOBuffer_write_def IOBuffer_hasData_def IOBuffer_reset_def
  fs_remove_def sys_open_def sys_fstat_size_def store_def transfer_def sys_write_def
  sys_read_def sys_lseek_def sys_fsync_def sys_close_def
  open_flags_def FileStreamImpl_init_def FileStreamImpl_read_def FileStreamImpl_flush_def
  write_limit_check_def write_body_def FileStreamImpl_write_def FileStreamImpl_seek_def
  FileStreamImpl_close_def FileStream_writesome_def FileStream_seek_def FileStream_size_def
  FileStream_tell_def FileStream_canRead_def FileStream_canWrite_def FileStream_close_def
  FileStream_readsome_def native_writes_def

section \<open>Properties of the write loop\<close>

lemma flush_frame:
  "FileStreamImpl_flush st s = (r, st1, s1) \<Longrightarrow>
     mode st1 = mode st \<and> fd st1 = fd st \<and> filePath st1 = filePath st
     \<and> currentOffset st1 = currentOffset st \<and> fileSize st1 = fileSize st"
  by (auto simp: FileStreamImpl_flush_def IOBuffer_reset_def split: if_splits prod.splits option.splits)

lemma flush_writable:
  "FileStream_canWrite st \<Longrightarrow> buffer st \<noteq> [] \<Longrightarrow>
   FileStreamImpl_flush st s =
     (case sys_write s (fd st) (buffer st) of
        (None, s1) \<Rightarrow> (Inl WriteError, st, s1)
      | (Some k, s1) \<Rightarrow> (Inr k, st\<lparr>buffer := []\<rparr>, s1))"
  by (simp add: FileStreamImpl_flush_def FileStream_canWrite_def IOBuffer_hasData_def
      IOBuffer_reset_def split: prod.splits option.splits)

lemma flush_noop:
  "\<not> FileStream_canWrite st \<or> buffer st = [] \<Longrightarrow> FileStreamImpl_flush st s = (Inr 0, st, s)"
  by (auto simp: FileStreamImpl_flush_def FileStream_canWrite_def IOBuffer_hasData_def)

lemma write_limit_check_Continue:
  "write_limit_check st s n = Continue st1 s1 n1 \<Longrightarrow> st1 = st \<and> s1 = s \<and> n1 = n"
  by (simp add: write_limit_check_def split: if_splits)

lemma write_limit_check_Stop:
  "write_limit_check st s n = Stop (r, st1, s1) \<Longrightarrow> st1 = st \<and> s1 = s \<and> r = Inl SizeLimitExceeded"
  by (simp add: write_limit_check_def split: if_splits)

lemma IOBuffer_write_eq:
  "IOBuffer_write buf d sz =
     (min sz (kBufferSize - length buf), buf @ take (min sz (kBufferSize - length buf)) d)"
  by (simp add: IOBuffer_write_def Let_def min_def)

lemma write_body_k:
  assumes "k = min (length data - n) (kBufferSize - length (buffer st))"
  shows "write_body st s data n =
     (if k < length data then
        (case FileStreamImpl_flush (st\<lparr>buffer := buffer st @ take k (drop n data)\<rparr>) s of
           (Inl e, st2, s2) \<Rightarrow> Stop (Inl e, st2, s2)
         | (Inr nFlushed, st2, s2) \<Rightarrow>
             if nFlushed < k then Stop (Inr nFlushed, st2, s2)
             else write_limit_check st2 s2 (n + k))
      else write_limit_check (st\<lparr>buffer := buffer st @ take k (drop n data)\<rparr>) s (n + k))"
  unfolding write_body_def IOBuffer_write_eq prod.case assms ..

text \<open>What one pass leaves alone, and where it can end.\<close>

lemma write_body_cases:
  assumes k: "k = min (length data - n) (kBufferSize - length (buffer st))"
    and fl: "FileStreamImpl_flush (st\<lparr>buffer := buffer st @ take k (drop n data)\<rparr>) s = (r, st2, s2)"
  shows "write_body st s data n = Continue st1 s1 n1 \<Longrightarrow>
           n1 = n + k \<and> ((k < length data \<and> st1 = st2 \<and> s1 = s2 \<and> (\<exists>f. r = Inr f \<and> k \<le> f))
              \<or> (\<not> k < length data \<and> st1 = st\<lparr>buffer := buffer st @ take k (drop n data)\<rparr> \<and> s1 = s))"
    and "write_body st s data n = Stop (e, st1, s1) \<Longrightarrow>
           (k < length data \<and> st1 = st2 \<and> s1 = s2)
              \<or> (\<not> k < length data \<and> st1 = st\<lparr>buffer := buffer st @ take k (drop n data)\<rparr> \<and> s1 = s)"
proof -
  show "write_body st s data n = Continue st1 s1 n1 \<Longrightarrow>
           n1 = n + k \<and> ((k < length data \<and> st1 = st2 \<and> s1 = s2 \<and> (\<exists>f. r = Inr f \<and> k \<le> f))
              \<or> (\<not> k < length data \<and> st1 = st\<lparr>buffer := buffer st @ take k (drop n data)\<rparr> \<and> s1 = s))"
    unfolding write_body_k [OF k] fl
    by (cases "k < length data"; cases r)
       (auto split: if_splits dest: write_limit_check_Continue)
  show "write_body st s data n = Stop (e, st1, s1) \<Longrightarrow>
           (k < length data \<and> st1 = st2 \<and> s1 = s2)
              \<or> (\<not> k < length data \<and> st1 = st\<lparr>buffer := buffer st @ take k (drop n data)\<rparr> \<and> s1 = s)"
    unfolding write_body_k [OF k] fl
    by (cases "k < length data"; cases r)
       (auto split: if_splits dest: write_limit_check_Stop)
qed

lemma write_body_Continue_frame:
  assumes "write_body st s data n = Continue st1 s1 n1"
  shows "mode st1 = mode st \<and> fd st1 = fd st \<and> filePath st1 = filePath st
     \<and> currentOffset st1 = currentOffset st \<and> fileSize st1 = fileSize st"
proof -
  define k where "k = min (length data - n) (kBufferSize - length (buffer st))"
  obtain r st2 s2 where fl:
    "FileStreamImpl_flush (st\<lparr>buffer := buffer st @ take k (drop n data)\<rparr>) s = (r, st2, s2)"
    using prod_cases3 by blast
  from write_body_cases(1) [OF k_def fl assms] flush_frame [OF fl] show ?thesis by auto
qed

text \<open>A pass reaches the loop condition only below the size guard.\<close>

lemma write_body_Continue_limit:
  assumes "write_body st s data n = Continue st1 s1 n1"
  shows "currentOffset st1 + n1 < MAX_WRITE_FILE_SIZE"
proof -
  define k where "k = min (length data - n) (kBufferSize - length (buffer st))"
  obtain r st2 s2 where fl:
    "FileStreamImpl_flush (st\<lparr>buffer := buffer st @ take k (drop n data)\<rparr>) s = (r, st2, s2)"
    using prod_cases3 by blast
  show ?thesis
    using assms unfolding write_body_k [OF k_def] fl
    by (cases "k < length data"; cases r)
       (auto simp: write_limit_check_def split: if_splits)
qed

lemma write_body_Stop_frame:
  assumes "write_body st s data n = Stop (r, st1, s1)"
  shows "mode st1 = mode st \<and> fd st1 = fd st \<and> filePath st1 = filePath st
     \<and> currentOffset st1 = currentOffset st \<and> fileSize st1 = fileSize st"
proof -
  define k where "k = min (length data - n) (kBufferSize - length (buffer st))"
  obtain r2 st2 s2 where fl:
    "FileStreamImpl_flush (st\<lparr>buffer := buffer st @ take k (drop n data)\<rparr>) s = (r2, st2, s2)"
    using prod_cases3 by blast
  from write_body_cases(2) [OF k_def fl assms] flush_frame [OF fl] show ?thesis by auto
qed

lemma write_loop_finish:
  "write_body st s data n = Continue st1 s1 n1 \<Longrightarrow> \<not> n1 < length data \<Longrightarrow>
   write_loop st s data n =
     Some (Inr n1,
           st1\<lparr>currentOffset := currentOffset st1 + n1,
               fileSize := max (fileSize st1) (currentOffset st1 + n1)\<rparr>, s1)"
  by (subst write_loop.simps) (simp add: Let_def max_def)

lemma write_loop_next:
  "write_body st s data n = Continue st1 s1 n1 \<Longrightarrow> n1 < length data \<Longrightarrow>
   write_loop st s data n = write_loop st1 s1 data n1"
  by (subst write_loop.simps) simp

lemma write_loop_stop:
  "write_body st s data n = Stop r \<Longrightarrow> write_loop st s data n = Some r"
  by (subst write_loop.simps) simp

lemma write_loop_frame:
  assumes "write_loop st s data n = Some y"
  shows "mode (fst (snd y)) = mode st \<and> fd (fst (snd y)) = fd st
     \<and> filePath (fst (snd y)) = filePath st
     \<and> ((currentOffset (fst (snd y)) = currentOffset st \<and> fileSize (fst (snd y)) = fileSize st)
        \<or> (\<exists>k. fst y = Inr k \<and> currentOffset st + k < MAX_WRITE_FILE_SIZE
               \<and> currentOffset (fst (snd y)) = currentOffset st + k
               \<and> fileSize (fst (snd y)) = max (fileSize st) (currentOffset st + k)))"
proof (rule write_loop.raw_induct [where P = "\<lambda>st s data n y.
     mode (fst (snd y)) = mode st \<and> fd (fst (snd y)) = fd st
     \<and> filePath (fst (snd y)) = filePath st
     \<and> ((currentOffset (fst (snd y)) = currentOffset st \<and> fileSize (fst (snd y)) = fileSize st)
        \<or> (\<exists>k. fst y = Inr k \<and> currentOffset st + k < MAX_WRITE_FILE_SIZE
               \<and> currentOffset (fst (snd y)) = currentOffset st + k
               \<and> fileSize (fst (snd y)) = max (fileSize st) (currentOffset st + k)))", OF _ assms])
  fix wl :: "FileStreamImpl \<Rightarrow> os \<Rightarrow> byte_t list \<Rightarrow> nat \<Rightarrow> ((error + nat) \<times> FileStreamImpl \<times> os) option"
  fix st s data n y
  let ?P = "\<lambda>st y. mode (fst (snd y)) = mode st \<and> fd (fst (snd y)) = fd st
     \<and> filePath (fst (snd y)) = filePath st
     \<and> ((currentOffset (fst (snd y)) = currentOffset st \<and> fileSize (fst (snd y)) = fileSize st)
        \<or> (\<exists>k. fst y = Inr k \<and> currentOffset st + k < MAX_WRITE_FILE_SIZE
               \<and> currentOffset (fst (snd y)) = currentOffset st + k
               \<and> fileSize (fst (snd y)) = max (fileSize st) (currentOffset st + k)))"
  assume IH: "\<And>st s data n y. wl st s data n = Some y \<Longrightarrow> ?P st y"
  assume eq: "(case write_body st s data n of
        Stop r \<Rightarrow> Some r
      | Continue st1 s1 n \<Rightarrow>
          if n < length data then wl st1 s1 data n
          else
            (let st2 = st1\<lparr>currentOffset := currentOffset st1 + n\<rparr>;
                 st3 = (if fileSize st2 < currentOffset st2
                        then st2\<lparr>fileSize := currentOffset st2\<rparr> else st2)
             in Some (Inr n, st3, s1))) = Some y"
  show "?P st y"
  proof (cases "write_body st s data n")
    case (Stop r)
    obtain e st1 s1 where r: "r = (e, st1, s1)" using prod_cases3 by blast
    from Stop eq have "y = r" by simp
    with write_body_Stop_frame [OF Stop [unfolded r]] r show ?thesis by simp
  next
    case (Continue st1 s1 n1)
    note fr = write_body_Continue_frame [OF Continue]
    note lim = write_body_Continue_limit [OF Continue]
    show ?thesis
    proof (cases "n1 < length data")
      case True
      with Continue eq have "wl st1 s1 data n1 = Some y" by simp
      from IH [OF this] have "?P st1 y" .
      then show ?thesis unfolding fr [THEN conjunct1] fr [THEN conjunct2, THEN conjunct1]
        using fr by simp
    next
      case False
      with Continue eq have y: "y = (Inr n1, (if fileSize st1 < currentOffset st1 + n1
              then st1\<lparr>currentOffset := currentOffset st1 + n1, fileSize := currentOffset st1 + n1\<rparr>
              else st1\<lparr>currentOffset := currentOffset st1 + n1\<rparr>), s1)"
        by (auto simp: Let_def)
      show ?thesis unfolding y using fr lim by (simp add: max_def)
    qed
  qed
qed

lemma write_body_progress:
  assumes "write_body st s data n = Continue st1 s1 n1"
  shows "n \<le> n1" and "n < length data \<Longrightarrow> n1 \<le> length data"
    and "FileStream_canWrite st \<Longrightarrow> n < length data \<Longrightarrow>
          n < n1 \<or> (kBufferSize \<le> length (buffer st) \<and> buffer st1 = [])"
proof -
  define k where "k = min (length data - n) (kBufferSize - length (buffer st))"
  obtain r st2 s2 where fl:
    "FileStreamImpl_flush (st\<lparr>buffer := buffer st @ take k (drop n data)\<rparr>) s = (r, st2, s2)"
    using prod_cases3 by blast
  note c = write_body_cases(1) [OF k_def fl assms]
  then have n1: "n1 = n + k" by simp
  show "n \<le> n1" using n1 by simp
  show "n < length data \<Longrightarrow> n1 \<le> length data" using n1 by (simp add: k_def)
  show "n < n1 \<or> (kBufferSize \<le> length (buffer st) \<and> buffer st1 = [])"
    if cw: "FileStream_canWrite st" and lt: "n < length data"
  proof (cases "k = 0")
    case False
    then show ?thesis using n1 by simp
  next
    case True
    with lt have full: "kBufferSize \<le> length (buffer st)" by (simp add: k_def)
    then have ne: "buffer st \<noteq> []" by (auto simp: kBufferSize_def)
    from c True lt obtain f where st12: "st1 = st2" and r: "r = Inr f" by auto
    from fl have "FileStreamImpl_flush st s = (Inr f, st2, s2)" unfolding True r by simp
    then have "buffer st2 = []"
      unfolding flush_writable [OF cw ne] by (auto split: prod.splits option.splits)
    with full st12 show ?thesis by simp
  qed
qed

lemma write_loop_terminates:
  "FileStream_canWrite st \<Longrightarrow> \<exists>y. write_loop st s data n = Some y"
proof (induction "2 * (length data - n) + (if kBufferSize \<le> length (buffer st) then 1 else 0 :: nat)"
    arbitrary: st s n rule: less_induct)
  case less
  show ?case
  proof (cases "write_body st s data n")
    case (Stop r)
    then show ?thesis by (metis write_loop_stop)
  next
    case (Continue st1 s1 n1)
    note fr = write_body_Continue_frame [OF Continue]
    note pr = write_body_progress [OF Continue]
    show ?thesis
    proof (cases "n1 < length data")
      case True
      with pr(1) have nlt: "n < length data" by simp
      have cw: "FileStream_canWrite st1"
        using less.prems fr by (simp add: FileStream_canWrite_def)
      have "n < n1 \<or> (kBufferSize \<le> length (buffer st) \<and> buffer st1 = [])"
        using pr(3) less.prems nlt by blast
      moreover have "n \<le> n1" by (rule pr(1))
      ultimately have "2 * (length data - n1) + (if kBufferSize \<le> length (buffer st1) then 1 else 0 :: nat)
          < 2 * (length data - n) + (if kBufferSize \<le> length (buffer st) then 1 else 0)"
        using True by (auto simp: kBufferSize_def)
      from less.hyps [OF this cw] obtain y where "write_loop st1 s1 data n1 = Some y" by blast
      with Continue True show ?thesis by (metis write_loop_next)
    next
      case False
      with Continue show ?thesis by (metis write_loop_finish)
    qed
  qed
qed

text \<open>
  The loop does not end on a stream that cannot write once its buffer is full: \<open>flush\<close>
  leaves the buffer as it is, no byte is staged, and \<open>nTotalWritten\<close> stays where it was.
\<close>

lemma write_loop_diverges:
  assumes "\<not> FileStream_canWrite st" and "kBufferSize \<le> length (buffer st)"
    and "n < length data" and "currentOffset st + n < MAX_WRITE_FILE_SIZE"
  shows "write_loop st s data n = None"
proof (rule ccontr)
  assume "write_loop st s data n \<noteq> None"
  then obtain y where y: "write_loop st s data n = Some y" by auto
  have "\<not> (\<not> FileStream_canWrite st \<and> kBufferSize \<le> length (buffer st)
           \<and> n < length data \<and> currentOffset st + n < MAX_WRITE_FILE_SIZE)"
  proof (rule write_loop.raw_induct [where P = "\<lambda>st s data n y.
      \<not> (\<not> FileStream_canWrite st \<and> kBufferSize \<le> length (buffer st)
           \<and> n < length data \<and> currentOffset st + n < MAX_WRITE_FILE_SIZE)", OF _ y])
    fix wl :: "FileStreamImpl \<Rightarrow> os \<Rightarrow> byte_t list \<Rightarrow> nat \<Rightarrow> ((error + nat) \<times> FileStreamImpl \<times> os) option"
    fix st s data n y
    assume IH: "\<And>st s data n y. wl st s data n = Some y \<Longrightarrow>
      \<not> (\<not> FileStream_canWrite st \<and> kBufferSize \<le> length (buffer st)
           \<and> n < length data \<and> currentOffset st + n < MAX_WRITE_FILE_SIZE)"
    assume eq: "(case write_body st s data n of
        Stop r \<Rightarrow> Some r
      | Continue st1 s1 n \<Rightarrow>
          if n < length data then wl st1 s1 data n
          else
            (let st2 = st1\<lparr>currentOffset := currentOffset st1 + n\<rparr>;
                 st3 = (if fileSize st2 < currentOffset st2
                        then st2\<lparr>fileSize := currentOffset st2\<rparr> else st2)
             in Some (Inr n, st3, s1))) = Some y"
    show "\<not> (\<not> FileStream_canWrite st \<and> kBufferSize \<le> length (buffer st)
           \<and> n < length data \<and> currentOffset st + n < MAX_WRITE_FILE_SIZE)"
    proof
      assume c: "\<not> FileStream_canWrite st \<and> kBufferSize \<le> length (buffer st)
           \<and> n < length data \<and> currentOffset st + n < MAX_WRITE_FILE_SIZE"
      then have k: "0 = min (length data - n) (kBufferSize - length (buffer st))" by simp
      have fl: "FileStreamImpl_flush st s = (Inr 0, st, s)" using c by (simp add: flush_noop)
      have "write_body st s data n = Continue st s n"
        using c fl by (simp add: write_body_k [OF k] write_limit_check_def)
      with eq c have "wl st s data n = Some y" by simp
      from IH [OF this] c show False by simp
    qed
  qed
  with assms show False by simp
qed

section \<open>Opening, reading, seeking, closing\<close>

lemma init_Inr:
  assumes "FileStreamImpl_init fp trunc m s0 = (Inr st, s)"
  shows "mode st = m" and "filePath st = fp" and "currentOffset st = 0" and "buffer st = []"
    and "fd st = int (fdnum s)" and "disk s = Some c \<Longrightarrow> fileSize st = length c"
    and "acc s = open_flags m" and "open_flags m \<noteq> None" and "pos s = 0"
    and "wfaults s = wfaults s0" and "rfaults s = rfaults s0" and "disk s \<noteq> None"
    and "m \<noteq> Read \<Longrightarrow> disk s = Some []" and "calls s = calls s0 @ [SysOpen]"
    and "fileSize st < 2 ^ 63"
  using assms
  by (auto simp: FileStreamImpl_init_def sys_open_def sys_fstat_size_def open_flags_def Let_def
           fs_remove_def
      split: Mode.splits option.splits if_splits prod.splits)

lemma sys_read_length:
  "sys_read s d n = (Some bs, s1) \<Longrightarrow> length bs \<le> n"
  by (auto simp: sys_read_def Let_def transfer_def
      split: if_splits option.splits list.splits fault.splits)

lemma read_frame:
  assumes "FileStreamImpl_read st s n = (r, st1, s1)"
  shows "mode st1 = mode st \<and> fd st1 = fd st \<and> filePath st1 = filePath st
    \<and> fileSize st1 = fileSize st \<and> buffer st1 = buffer st
    \<and> currentOffset st \<le> currentOffset st1 \<and> currentOffset st1 \<le> currentOffset st + n
    \<and> (\<forall>e. r = Inl e \<longrightarrow> e = ReadError \<and> st1 = st)
    \<and> (\<forall>bs. r = Inr bs \<longrightarrow> currentOffset st1 = currentOffset st + length bs)"
proof (cases "sys_read s (fd st) n")
  case (Pair o1 s2)
  show ?thesis
  proof (cases o1)
    case None
    with Pair assms show ?thesis by (auto simp: FileStreamImpl_read_def)
  next
    case (Some bs)
    with Pair sys_read_length [of s "fd st" n bs s2] assms show ?thesis
      by (auto simp: FileStreamImpl_read_def)
  qed
qed

lemma read_refused:
  "2 ^ 63 \<le> n \<Longrightarrow>
   FileStreamImpl_read st s n = (Inl ReadError, st, s\<lparr>calls := calls s @ [SysRead (fd st) n]\<rparr>)"
  by (simp add: FileStreamImpl_read_def sys_read_def Let_def)

text \<open>
  The clamp of \<open>readsome\<close>.  Where the sum wraps, the unclamped length is above
  \<open>SSIZE_MAX\<close> and the native read is refused.
\<close>

lemma readsome_frame:
  assumes "FileStream_readsome st s n = (r, st1, s1)" and "currentOffset st \<le> fileSize st"
    and "fileSize st < 2 ^ 63"
  shows "mode st1 = mode st \<and> fd st1 = fd st \<and> filePath st1 = filePath st
    \<and> fileSize st1 = fileSize st \<and> buffer st1 = buffer st
    \<and> currentOffset st \<le> currentOffset st1 \<and> currentOffset st1 \<le> fileSize st"
proof (cases "fileSize st \<le> (currentOffset st + n) mod 2 ^ 64")
  case True
  with assms have "FileStreamImpl_read st s (fileSize st - currentOffset st) = (r, st1, s1)"
    by (simp add: FileStream_readsome_def)
  from read_frame [OF this] assms(2) show ?thesis by auto
next
  case False
  with assms have rd: "FileStreamImpl_read st s n = (r, st1, s1)"
    by (simp add: FileStream_readsome_def)
  show ?thesis
  proof (cases "(2 :: nat) ^ 63 \<le> n")
    case True
    from rd read_refused [OF True, of st s] assms(2) show ?thesis by simp
  next
    case False
    with assms(2,3) have "currentOffset st + n < 2 ^ 64" by simp
    then have "(currentOffset st + n) mod 2 ^ 64 = currentOffset st + n" by simp
    with \<open>\<not> fileSize st \<le> (currentOffset st + n) mod 2 ^ 64\<close>
    have "currentOffset st + n < fileSize st" by simp
    with read_frame [OF rd] show ?thesis by auto
  qed
qed

lemma readsome_mode:
  "FileStream_readsome st s n = (r, st1, s1) \<Longrightarrow> mode st1 = mode st"
  using read_frame by (auto simp: FileStream_readsome_def Let_def split: if_splits)

lemma seek_frame:
  assumes "FileStreamImpl_seek st s p = (r, st1, s1)"
  shows "mode st1 = mode st \<and> fd st1 = fd st \<and> filePath st1 = filePath st
    \<and> ((\<exists>e. r = Inl e) \<and> currentOffset st1 = currentOffset st \<and> fileSize st1 = fileSize st
        \<or> r = Inr () \<and> p < 2 ^ 63 \<and> currentOffset st1 = p
          \<and> fileSize st1 = max (fileSize st) p)"
proof -
  obtain r2 st2 s2 where fl: "FileStreamImpl_flush st s = (r2, st2, s2)"
    using prod_cases3 by blast
  note fr = flush_frame [OF fl]
  show ?thesis
  proof (cases r2)
    case (Inl e)
    with assms fl fr show ?thesis by (auto simp: FileStreamImpl_seek_def)
  next
    case (Inr k)
    obtain o3 s3 where ls: "sys_lseek s2 (fd st2) p = (o3, s3)"
      by (cases "sys_lseek s2 (fd st2) p")
    show ?thesis
    proof (cases o3)
      case None
      with assms fl fr Inr ls show ?thesis by (auto simp: FileStreamImpl_seek_def)
    next
      case (Some q)
      with ls have "p < 2 ^ 63" by (auto simp: sys_lseek_def Let_def split: if_splits)
      with assms fl fr Inr ls Some show ?thesis
        by (auto simp: FileStreamImpl_seek_def Let_def max_def split: if_splits)
    qed
  qed
qed

lemma close_frame:
  assumes "FileStreamImpl_close st s = (r, st1, s1)"
  shows "mode st1 = mode st \<and> filePath st1 = filePath st
    \<and> currentOffset st1 = currentOffset st \<and> fileSize st1 = fileSize st
    \<and> (fd st1 = fd st \<or> fd st1 = - 1)"
proof -
  obtain r2 st2 s2 where fl: "FileStreamImpl_flush st s = (r2, st2, s2)"
    using prod_cases3 by blast
  note fr = flush_frame [OF fl]
  show ?thesis
  proof (cases r2)
    case (Inl e)
    with assms fl fr show ?thesis by (auto simp: FileStreamImpl_close_def)
  next
    case (Inr k)
    with assms fl fr show ?thesis
      by (auto simp: FileStreamImpl_close_def Let_def split: if_splits)
  qed
qed

lemma writesome_frame:
  assumes "FileStream_writesome st s data = Some (r, st1, s1)"
  shows "mode st1 = mode st \<and> fd st1 = fd st \<and> filePath st1 = filePath st
     \<and> ((currentOffset st1 = currentOffset st \<and> fileSize st1 = fileSize st)
        \<or> (\<exists>k. r = Inr k \<and> currentOffset st + k < MAX_WRITE_FILE_SIZE
               \<and> currentOffset st1 = currentOffset st + k
               \<and> fileSize st1 = max (fileSize st) (currentOffset st + k)))"
  using write_loop_frame [of st s data 0 "(r, st1, s1)"] assms
  by (simp add: FileStream_writesome_def FileStreamImpl_write_def)

section \<open>Sequences of operations\<close>

lemma apply_op_frame:
  assumes "apply_op x (st, s) = Some (st1, s1)"
  shows "mode st1 = mode st"
    and "currentOffset st \<le> fileSize st \<Longrightarrow> fileSize st < 2 ^ 63 \<Longrightarrow>
           currentOffset st1 \<le> fileSize st1 \<and> fileSize st1 < 2 ^ 63"
    and "fd st = - 1 \<Longrightarrow> fd st1 = - 1"
proof -
  have big: "MAX_WRITE_FILE_SIZE < 2 ^ 63" by (simp add: MAX_WRITE_FILE_SIZE_def)
  show "mode st1 = mode st"
  proof (cases x)
    case (OpRead n)
    with assms readsome_mode [of st s n "fst (FileStream_readsome st s n)" st1 s1]
    show ?thesis by (cases "FileStream_readsome st s n") auto
  next
    case (OpWrite d)
    with assms obtain r where "FileStream_writesome st s d = Some (r, st1, s1)" by auto
    from writesome_frame [OF this] show ?thesis by simp
  next
    case (OpSeek p)
    with assms seek_frame [of st s p "fst (FileStream_seek st s p)" st1 s1]
    show ?thesis by (cases "FileStreamImpl_seek st s p") (auto simp: FileStream_seek_def)
  next
    case OpClose
    with assms close_frame [of st s "fst (FileStream_close st s)" st1 s1]
    show ?thesis by (cases "FileStreamImpl_close st s") (auto simp: FileStream_close_def)
  qed
  show "currentOffset st1 \<le> fileSize st1 \<and> fileSize st1 < 2 ^ 63"
    if inv: "currentOffset st \<le> fileSize st" and bnd: "fileSize st < 2 ^ 63"
  proof (cases x)
    case (OpRead n)
    with assms inv bnd readsome_frame [of st s n "fst (FileStream_readsome st s n)" st1 s1]
    show ?thesis by (cases "FileStream_readsome st s n") auto
  next
    case (OpWrite d)
    with assms obtain r where "FileStream_writesome st s d = Some (r, st1, s1)" by auto
    from writesome_frame [OF this] inv bnd big show ?thesis by auto
  next
    case (OpSeek p)
    with assms inv bnd seek_frame [of st s p "fst (FileStream_seek st s p)" st1 s1]
    show ?thesis by (cases "FileStreamImpl_seek st s p") (auto simp: FileStream_seek_def)
  next
    case OpClose
    with assms inv bnd close_frame [of st s "fst (FileStream_close st s)" st1 s1]
    show ?thesis by (cases "FileStreamImpl_close st s") (auto simp: FileStream_close_def)
  qed
  show "fd st1 = - 1" if cl: "fd st = - 1"
  proof (cases x)
    case (OpRead n)
    obtain r st2 s2 where rs: "FileStream_readsome st s n = (r, st2, s2)"
      using prod_cases3 by blast
    then obtain k where "FileStreamImpl_read st s k = (r, st2, s2)"
      by (auto simp: FileStream_readsome_def Let_def)
    from read_frame [OF this] rs OpRead assms cl show ?thesis by simp
  next
    case (OpWrite d)
    with assms obtain r where "FileStream_writesome st s d = Some (r, st1, s1)" by auto
    from writesome_frame [OF this] cl show ?thesis by simp
  next
    case (OpSeek p)
    with assms cl seek_frame [of st s p "fst (FileStream_seek st s p)" st1 s1]
    show ?thesis by (cases "FileStreamImpl_seek st s p") (auto simp: FileStream_seek_def)
  next
    case OpClose
    with assms cl close_frame [of st s "fst (FileStream_close st s)" st1 s1]
    show ?thesis by (cases "FileStreamImpl_close st s") (auto simp: FileStream_close_def)
  qed
qed

lemma run_frame:
  "run ops (st, s) = Some (st1, s1) \<Longrightarrow>
     mode st1 = mode st
     \<and> (currentOffset st \<le> fileSize st \<and> fileSize st < 2 ^ 63
          \<longrightarrow> currentOffset st1 \<le> fileSize st1 \<and> fileSize st1 < 2 ^ 63)
     \<and> (fd st = - 1 \<longrightarrow> fd st1 = - 1)"
proof (induction ops arbitrary: st s)
  case Nil
  then show ?case by simp
next
  case (Cons x xs)
  from Cons.prems obtain st2 s2 where a: "apply_op x (st, s) = Some (st2, s2)"
    and r: "run xs (st2, s2) = Some (st1, s1)"
    by (auto split: option.splits)
  from Cons.IH [OF r] apply_op_frame [OF a] show ?case by simp
qed

section \<open>Zero-length write, cursor invariant and capabilities\<close>

text \<open>
  C10 (zero-length write).  On a stream whose \<open>tell()\<close> is below the maximum file size,
  writing zero bytes returns 0 and changes nothing: \<open>tell()\<close>, \<open>size()\<close>, the staged bytes
  of the write buffer, every other member and the native file are as before.  The cursor
  invariant \<open>tell() \<le> size()\<close> is the one every stream has (proved next).
\<close>

theorem zero_length_write:
  "FileStream_tell st < MAX_WRITE_FILE_SIZE \<Longrightarrow> FileStream_tell st \<le> FileStream_size st \<Longrightarrow>
   FileStream_writesome st s [] = Some (Inr 0, st, s)"
  by (simp add: FileStream_writesome_def FileStreamImpl_write_def FileStream_tell_def
      FileStream_size_def write_loop.simps write_body_def IOBuffer_write_def write_limit_check_def)

theorem zero_length_write_witness:
  "FileStream_tell \<lparr>mode = Write, filePath = ''f'', fileSize = 9, currentOffset = 7,
       buffer = [1, 2], fd = 3\<rparr> < MAX_WRITE_FILE_SIZE
   \<and> FileStream_tell \<lparr>mode = Write, filePath = ''f'', fileSize = 9, currentOffset = 7,
       buffer = [1, 2], fd = 3\<rparr>
     \<le> FileStream_size \<lparr>mode = Write, filePath = ''f'', fileSize = 9, currentOffset = 7,
       buffer = [1, 2], fd = 3\<rparr>
   \<and> FileStream_writesome
        \<lparr>mode = Write, filePath = ''f'', fileSize = 9, currentOffset = 7, buffer = [1, 2], fd = 3\<rparr>
        \<lparr>fdnum = 3, disk = Some [0, 0, 0, 0, 0], acc = Some O_WRONLY, pos = 5, wfaults = [], rfaults = [],
           calls = [SysOpen]\<rparr> []
      = Some (Inr 0,
        \<lparr>mode = Write, filePath = ''f'', fileSize = 9, currentOffset = 7, buffer = [1, 2], fd = 3\<rparr>,
        \<lparr>fdnum = 3, disk = Some [0, 0, 0, 0, 0], acc = Some O_WRONLY, pos = 5, wfaults = [], rfaults = [],
           calls = [SysOpen]\<rparr>)"
  using zero_length_write [of "\<lparr>mode = Write, filePath = ''f'', fileSize = 9, currentOffset = 7,
       buffer = [1, 2], fd = 3\<rparr>"
      "\<lparr>fdnum = 3, disk = Some [0, 0, 0, 0, 0], acc = Some O_WRONLY, pos = 5, wfaults = [], rfaults = [],
           calls = [SysOpen]\<rparr>"]
  by (simp add: FileStream_tell_def FileStream_size_def MAX_WRITE_FILE_SIZE_def)

text \<open>
  C4 (cursor invariant).  From a freshly opened stream, after any sequence of reads, writes,
  seeks and closes, each of which has returned or thrown, \<open>tell() \<le> size()\<close>.  Every
  prefix of a sequence is a sequence, so this holds after every operation of a run.
\<close>

theorem cursor_invariant:
  assumes "FileStreamImpl_init fp trunc m s0 = (Inr st, s)"
    and "run ops (st, s) = Some (st1, s1)"
  shows "FileStream_tell st1 \<le> FileStream_size st1"
  using run_frame [OF assms(2)] init_Inr(3,15) [OF assms(1)]
  by (simp add: FileStream_tell_def FileStream_size_def)

theorem cursor_invariant_witness:
  "FileStreamImpl_init ''f'' False ReadWrite os_fresh =
     (Inr \<lparr>mode = ReadWrite, filePath = ''f'', fileSize = 0, currentOffset = 0, buffer = [], fd = 3\<rparr>,
      \<lparr>fdnum = 3, disk = Some [], acc = Some O_RDWR, pos = 0, wfaults = [], rfaults = [], calls = [SysOpen]\<rparr>)
   \<and> run [OpWrite [1, 2, 3], OpSeek 1, OpRead 5, OpClose]
       (\<lparr>mode = ReadWrite, filePath = ''f'', fileSize = 0, currentOffset = 0, buffer = [], fd = 3\<rparr>,
        \<lparr>fdnum = 3, disk = Some [], acc = Some O_RDWR, pos = 0, wfaults = [], rfaults = [], calls = [SysOpen]\<rparr>)
     = Some
       (\<lparr>mode = ReadWrite, filePath = ''f'', fileSize = 3, currentOffset = 3, buffer = [], fd = - 1\<rparr>,
        \<lparr>fdnum = 3, disk = Some [1, 2, 3], acc = None, pos = 3, wfaults = [], rfaults = [],
           calls = [SysOpen, SysWrite 3 [1, 2, 3], SysLseek 3 1, SysRead 3 2, SysFsync 3,
                    SysClose 3]\<rparr>)
   \<and> FileStream_tell
        \<lparr>mode = ReadWrite, filePath = ''f'', fileSize = 3, currentOffset = 3, buffer = [], fd = - 1\<rparr>
     \<le> FileStream_size
        \<lparr>mode = ReadWrite, filePath = ''f'', fileSize = 3, currentOffset = 3, buffer = [], fd = - 1\<rparr>"
proof -
  have h1: "FileStreamImpl_init ''f'' False ReadWrite os_fresh =
     (Inr \<lparr>mode = ReadWrite, filePath = ''f'', fileSize = 0, currentOffset = 0, buffer = [], fd = 3\<rparr>,
      \<lparr>fdnum = 3, disk = Some [], acc = Some O_RDWR, pos = 0, wfaults = [], rfaults = [], calls = [SysOpen]\<rparr>)"
    by (simp add: model_defs)
  have h2: "run [OpWrite [1, 2, 3], OpSeek 1, OpRead 5, OpClose]
       (\<lparr>mode = ReadWrite, filePath = ''f'', fileSize = 0, currentOffset = 0, buffer = [], fd = 3\<rparr>,
        \<lparr>fdnum = 3, disk = Some [], acc = Some O_RDWR, pos = 0, wfaults = [], rfaults = [], calls = [SysOpen]\<rparr>)
     = Some
       (\<lparr>mode = ReadWrite, filePath = ''f'', fileSize = 3, currentOffset = 3, buffer = [], fd = - 1\<rparr>,
        \<lparr>fdnum = 3, disk = Some [1, 2, 3], acc = None, pos = 3, wfaults = [], rfaults = [],
           calls = [SysOpen, SysWrite 3 [1, 2, 3], SysLseek 3 1, SysRead 3 2, SysFsync 3,
                    SysClose 3]\<rparr>)"
    by (simp add: model_defs write_loop.simps)
  from h1 h2 cursor_invariant [OF h1 h2] show ?thesis by blast
qed

text \<open>
  C9 (capability stability).  \<open>canRead()\<close> and \<open>canWrite()\<close> of a stream are fixed by the
  mode it was opened with: after any sequence of reads, writes, seeks and closes they are
  what that mode says.  In particular a stream opened in \<open>Write\<close> mode still reports
  \<open>canWrite()\<close> after \<open>close()\<close>.
\<close>

theorem capability_stability:
  assumes "FileStreamImpl_init fp trunc m s0 = (Inr st, s)"
    and "run ops (st, s) = Some (st1, s1)"
  shows "FileStream_canRead st1 = (m = Read \<or> m = ReadWrite)
       \<and> FileStream_canWrite st1 = (m = Write \<or> m = ReadWrite)"
  using run_frame [OF assms(2)] init_Inr(1) [OF assms(1)]
  by (simp add: FileStream_canRead_def FileStream_canWrite_def)

theorem capability_stability_witness:
  "FileStreamImpl_init ''f'' False Write os_fresh =
     (Inr \<lparr>mode = Write, filePath = ''f'', fileSize = 0, currentOffset = 0, buffer = [], fd = 3\<rparr>,
      \<lparr>fdnum = 3, disk = Some [], acc = Some O_WRONLY, pos = 0, wfaults = [], rfaults = [], calls = [SysOpen]\<rparr>)
   \<and> run [OpWrite [1, 2, 3], OpClose]
       (\<lparr>mode = Write, filePath = ''f'', fileSize = 0, currentOffset = 0, buffer = [], fd = 3\<rparr>,
        \<lparr>fdnum = 3, disk = Some [], acc = Some O_WRONLY, pos = 0, wfaults = [], rfaults = [], calls = [SysOpen]\<rparr>)
     = Some
       (\<lparr>mode = Write, filePath = ''f'', fileSize = 3, currentOffset = 3, buffer = [], fd = - 1\<rparr>,
        \<lparr>fdnum = 3, disk = Some [1, 2, 3], acc = None, pos = 3, wfaults = [], rfaults = [],
           calls = [SysOpen, SysWrite 3 [1, 2, 3], SysFsync 3, SysClose 3]\<rparr>)
   \<and> \<not> FileStream_canRead
        \<lparr>mode = Write, filePath = ''f'', fileSize = 3, currentOffset = 3, buffer = [], fd = - 1\<rparr>
   \<and> FileStream_canWrite
        \<lparr>mode = Write, filePath = ''f'', fileSize = 3, currentOffset = 3, buffer = [], fd = - 1\<rparr>"
proof -
  have h1: "FileStreamImpl_init ''f'' False Write os_fresh =
     (Inr \<lparr>mode = Write, filePath = ''f'', fileSize = 0, currentOffset = 0, buffer = [], fd = 3\<rparr>,
      \<lparr>fdnum = 3, disk = Some [], acc = Some O_WRONLY, pos = 0, wfaults = [], rfaults = [], calls = [SysOpen]\<rparr>)"
    by (simp add: model_defs)
  have h2: "run [OpWrite [1, 2, 3], OpClose]
       (\<lparr>mode = Write, filePath = ''f'', fileSize = 0, currentOffset = 0, buffer = [], fd = 3\<rparr>,
        \<lparr>fdnum = 3, disk = Some [], acc = Some O_WRONLY, pos = 0, wfaults = [], rfaults = [], calls = [SysOpen]\<rparr>)
     = Some
       (\<lparr>mode = Write, filePath = ''f'', fileSize = 3, currentOffset = 3, buffer = [], fd = - 1\<rparr>,
        \<lparr>fdnum = 3, disk = Some [1, 2, 3], acc = None, pos = 3, wfaults = [], rfaults = [],
           calls = [SysOpen, SysWrite 3 [1, 2, 3], SysFsync 3, SysClose 3]\<rparr>)"
    by (simp add: model_defs write_loop.simps)
  from h1 h2 capability_stability [OF h1 h2] show ?thesis by simp
qed

section \<open>The write loop on a native file that serves every write in full\<close>

lemma store_append: "store c (length c) bs = c @ bs"
  by (simp add: store_def)

lemma length_store:
  "length (store c p bs) = (if bs = [] then length c else max (length c) (p + length bs))"
  by (auto simp: store_def)

lemma sys_write_ready:
  assumes "write_ready st s" and "disk s = Some c"
  shows "fst (sys_write s (fd st) bs) = Some (length bs)"
    and "disk (snd (sys_write s (fd st) bs)) = Some (store c (pos s) bs)"
    and "pos (snd (sys_write s (fd st) bs)) = pos s + length bs"
    and "acc (snd (sys_write s (fd st) bs)) = acc s"
    and "wfaults (snd (sys_write s (fd st) bs)) = []"
    and "rfaults (snd (sys_write s (fd st) bs)) = rfaults s"
    and "calls (snd (sys_write s (fd st) bs)) = calls s @ [SysWrite (fd st) bs]"
    and "fdnum (snd (sys_write s (fd st) bs)) = fdnum s"
  using assms by (auto simp: sys_write_def write_ready_def transfer_def Let_def)

lemma write_body_ready:
  assumes cw: "FileStream_canWrite st" and rd: "write_ready st s" and d: "disk s = Some c"
    and n: "n < length data"
    and k: "k = min (length data - n) (kBufferSize - length (buffer st))"
    and b: "b = buffer st @ take k (drop n data)"
  shows "\<exists>s1. write_body st s data n
            = write_limit_check (st\<lparr>buffer := (if k < length data then [] else b)\<rparr>) s1 (n + k)
          \<and> write_ready st s1 \<and> acc s1 = acc s \<and> rfaults s1 = rfaults s
          \<and> (if k < length data
              then calls s1 = calls s @ [SysWrite (fd st) b]
                 \<and> disk s1 = Some (store c (pos s) b) \<and> pos s1 = pos s + length b
              else s1 = s)"
proof (cases "k < length data")
  case True
  have kpos: "0 < kBufferSize" by (simp add: kBufferSize_def)
  have ne: "b \<noteq> []"
  proof (cases "k = 0")
    case True
    with n k have "kBufferSize \<le> length (buffer st)" by simp
    with kpos have "buffer st \<noteq> []" by auto
    then show ?thesis by (simp add: b)
  next
    case False
    with n show ?thesis by (simp add: b)
  qed
  have lenb: "k \<le> length b" using k by (simp add: b)
  let ?st1 = "st\<lparr>buffer := b\<rparr>"
  let ?w = "sys_write s (fd st) b"
  have cw1: "FileStream_canWrite ?st1" using cw by (simp add: FileStream_canWrite_def)
  have "FileStreamImpl_flush ?st1 s = (Inr (length b), st\<lparr>buffer := []\<rparr>, snd ?w)"
    using flush_writable [OF cw1, of s] ne sys_write_ready(1) [OF rd d, of b]
    by (cases ?w) (simp split: option.splits)
  with True lenb have "write_body st s data n
      = write_limit_check (st\<lparr>buffer := []\<rparr>) (snd ?w) (n + k)"
    by (simp add: write_body_k [OF k] b)
  moreover have "write_ready st (snd ?w)"
    using rd sys_write_ready [OF rd d, of b] by (simp add: write_ready_def)
  ultimately show ?thesis
    using True sys_write_ready [OF rd d, of b] by auto
next
  case False
  then show ?thesis using rd by (simp add: write_body_k [OF k] b)
qed

lemma write_loop_ready:
  assumes "FileStream_canWrite st" and "write_ready st s" and "disk s = Some c"
    and "pos s = length c" and "n < length data"
    and "currentOffset st + length data < MAX_WRITE_FILE_SIZE"
  shows "\<exists>st1 s1 c1. write_loop st s data n = Some (Inr (length data), st1, s1)
           \<and> write_ready st1 s1 \<and> disk s1 = Some c1 \<and> pos s1 = length c1
           \<and> c1 @ buffer st1 = c @ buffer st @ drop n data
           \<and> currentOffset st1 = currentOffset st + length data
           \<and> fileSize st1 = max (fileSize st) (currentOffset st + length data)
           \<and> acc s1 = acc s \<and> rfaults s1 = rfaults s"
  using assms
proof (induction "2 * (length data - n) + (if kBufferSize \<le> length (buffer st) then 1 else 0 :: nat)"
    arbitrary: st s n c rule: less_induct)
  case less
  define k where "k = min (length data - n) (kBufferSize - length (buffer st))"
  define b where "b = buffer st @ take k (drop n data)"
  define st2 where "st2 = st\<lparr>buffer := (if k < length data then [] else b)\<rparr>"
  from write_body_ready [OF less.prems(1,2,3,5) k_def b_def]
  obtain s2 where wb: "write_body st s data n = write_limit_check st2 s2 (n + k)"
    and rd2: "write_ready st s2" and acc2: "acc s2 = acc s" and rf2: "rfaults s2 = rfaults s"
    and eff: "if k < length data
              then calls s2 = calls s @ [SysWrite (fd st) b]
                 \<and> disk s2 = Some (store c (pos s) b) \<and> pos s2 = pos s + length b
              else s2 = s"
    unfolding st2_def by blast
  have nk: "n + k \<le> length data" using less.prems(5) by (simp add: k_def)
  have lenb: "length b = length (buffer st) + k" by (simp add: b_def k_def)
  have cont: "write_body st s data n = Continue st2 s2 (n + k)"
    using wb less.prems(6) nk by (simp add: write_limit_check_def st2_def)
  have rd2': "write_ready st2 s2" using rd2 by (simp add: write_ready_def st2_def)
  have cw2: "FileStream_canWrite st2"
    using less.prems(1) by (simp add: FileStream_canWrite_def st2_def)
  have off2: "currentOffset st2 = currentOffset st" "fileSize st2 = fileSize st"
    by (simp_all add: st2_def)
  obtain c2 where d2: "disk s2 = Some c2" and p2: "pos s2 = length c2"
    and c2: "c2 @ buffer st2 = c @ b"
    using eff less.prems(3,4) by (cases "k < length data") (auto simp: st2_def store_append)
  show ?case
  proof (cases "n + k < length data")
    case True
    then have klt: "k < length data" by simp
    then have buf2: "buffer st2 = []" by (simp add: st2_def)
    have "k = 0 \<Longrightarrow> kBufferSize \<le> length (buffer st)"
      using less.prems(5) by (simp add: k_def)
    then have m: "2 * (length data - (n + k)) + (if kBufferSize \<le> length (buffer st2) then 1 else 0 :: nat)
        < 2 * (length data - n) + (if kBufferSize \<le> length (buffer st) then 1 else 0)"
      using True by (cases "k = 0") (auto simp: buf2 kBufferSize_def)
    from less.hyps [OF m cw2 rd2' d2 p2 True] less.prems(6) off2
    obtain st1 s1 c1 where r: "write_loop st2 s2 data (n + k) = Some (Inr (length data), st1, s1)"
      and p: "write_ready st1 s1" "disk s1 = Some c1" "pos s1 = length c1"
        "c1 @ buffer st1 = c2 @ buffer st2 @ drop (n + k) data"
        "currentOffset st1 = currentOffset st + length data"
        "fileSize st1 = max (fileSize st) (currentOffset st + length data)"
        "acc s1 = acc s2" "rfaults s1 = rfaults s2"
      by auto
    have "take k (drop n data) @ drop (n + k) data = drop n data"
      by (metis add.commute append_take_drop_id drop_drop)
    then have "c2 @ buffer st2 @ drop (n + k) data = c @ buffer st @ drop n data"
      using c2 by (simp add: b_def buf2)
    moreover have "write_loop st s data n = Some (Inr (length data), st1, s1)"
      using write_loop_next [OF cont True] r by simp
    ultimately show ?thesis using p acc2 rf2 by auto
  next
    case False
    with nk have e: "n + k = length data" by simp
    then have "take k (drop n data) = drop n data" by simp
    then have cb: "c2 @ buffer st2 = c @ buffer st @ drop n data" using c2 by (simp add: b_def)
    from write_loop_finish [OF cont False] off2 e
    have "write_loop st s data n = Some (Inr (length data),
           st2\<lparr>currentOffset := currentOffset st + length data,
               fileSize := max (fileSize st) (currentOffset st + length data)\<rparr>, s2)"
      by simp
    then show ?thesis using rd2' d2 p2 cb acc2 rf2 by (auto simp: write_ready_def)
  qed
qed

lemma write_loop_limit:
  assumes "FileStream_canWrite st" and "write_ready st s" and "n < length data"
    and "MAX_WRITE_FILE_SIZE \<le> currentOffset st + length data"
  shows "\<exists>st1 s1. write_loop st s data n = Some (Inl SizeLimitExceeded, st1, s1)"
  using assms
proof (induction "2 * (length data - n) + (if kBufferSize \<le> length (buffer st) then 1 else 0 :: nat)"
    arbitrary: st s n rule: less_induct)
  case less
  define k where "k = min (length data - n) (kBufferSize - length (buffer st))"
  define b where "b = buffer st @ take k (drop n data)"
  define st2 where "st2 = st\<lparr>buffer := (if k < length data then [] else b)\<rparr>"
  obtain c where d: "disk s = Some c" using less.prems(2) by (auto simp: write_ready_def)
  from write_body_ready [OF less.prems(1,2) d less.prems(3) k_def b_def]
  obtain s2 where wb: "write_body st s data n = write_limit_check st2 s2 (n + k)"
    and rd2: "write_ready st s2"
    unfolding st2_def by blast
  have nk: "n + k \<le> length data" using less.prems(3) by (simp add: k_def)
  have off2: "currentOffset st2 = currentOffset st" by (simp add: st2_def)
  show ?case
  proof (cases "MAX_WRITE_FILE_SIZE \<le> currentOffset st + (n + k)")
    case True
    with wb off2 have "write_body st s data n = Stop (Inl SizeLimitExceeded, st2, s2)"
      by (simp add: write_limit_check_def)
    from write_loop_stop [OF this] show ?thesis by blast
  next
    case False
    with wb off2 have cont: "write_body st s data n = Continue st2 s2 (n + k)"
      by (simp add: write_limit_check_def)
    from False less.prems(4) have lt: "n + k < length data" by simp
    then have klt: "k < length data" by simp
    then have buf2: "buffer st2 = []" by (simp add: st2_def)
    have "k = 0 \<Longrightarrow> kBufferSize \<le> length (buffer st)"
      using less.prems(3) by (simp add: k_def)
    then have m: "2 * (length data - (n + k)) + (if kBufferSize \<le> length (buffer st2) then 1 else 0 :: nat)
        < 2 * (length data - n) + (if kBufferSize \<le> length (buffer st) then 1 else 0)"
      using lt by (cases "k = 0") (auto simp: buf2 kBufferSize_def)
    have rd2': "write_ready st2 s2" using rd2 by (simp add: write_ready_def st2_def)
    have cw2: "FileStream_canWrite st2"
      using less.prems(1) by (simp add: FileStream_canWrite_def st2_def)
    from less.hyps [OF m cw2 rd2' lt] less.prems(4) off2
    obtain st1 s1 where "write_loop st2 s2 data (n + k) = Some (Inl SizeLimitExceeded, st1, s1)"
      by auto
    with write_loop_next [OF cont lt] show ?thesis by simp
  qed
qed

section \<open>The size limit\<close>

lemma write_nil:
  "FileStreamImpl_write st s [] =
     Some (if MAX_WRITE_FILE_SIZE \<le> currentOffset st then (Inl SizeLimitExceeded, st, s)
           else (Inr 0, st\<lparr>fileSize := max (fileSize st) (currentOffset st)\<rparr>, s))"
  by (simp add: FileStreamImpl_write_def write_loop.simps write_body_def IOBuffer_write_def
      write_limit_check_def max_def)

lemma write_limit:
  assumes "FileStream_canWrite st" and "write_ready st s"
    and "MAX_WRITE_FILE_SIZE \<le> currentOffset st + length data"
  shows "\<exists>st1 s1. FileStreamImpl_write st s data = Some (Inl SizeLimitExceeded, st1, s1)"
proof (cases "data = []")
  case True
  with assms(3) show ?thesis by (simp add: write_nil)
next
  case False
  then have "0 < length data" by simp
  from write_loop_limit [OF assms(1,2) this assms(3)] show ?thesis
    by (simp add: FileStreamImpl_write_def)
qed

text \<open>
  C2 (limit enforcement), as the code has it.  On a writable stream whose native writes
  are served, a write that would bring the logical offset to the maximum file size or
  beyond (\<open>tell() + length \<ge> 1000000000\<close>) fails with \<open>SizeLimitExceeded\<close> and
  leaves \<open>tell()\<close> and \<open>size()\<close> as they were, so that \<open>size()\<close> is within the limit
  after the failure whenever it was before.  Nothing is said about the bytes the loop has
  staged or flushed before the guard fired.
\<close>

theorem limit_enforcement:
  assumes "FileStream_canWrite st" and "write_ready st s"
    and "MAX_WRITE_FILE_SIZE \<le> FileStream_tell st + length data"
  shows "\<exists>st1 s1. FileStream_writesome st s data = Some (Inl SizeLimitExceeded, st1, s1)
           \<and> FileStream_tell st1 = FileStream_tell st
           \<and> FileStream_size st1 = FileStream_size st"
proof -
  have "MAX_WRITE_FILE_SIZE \<le> currentOffset st + length data"
    using assms(3) by (simp add: FileStream_tell_def)
  from write_limit [OF assms(1,2) this]
  obtain st1 s1 where w: "FileStream_writesome st s data = Some (Inl SizeLimitExceeded, st1, s1)"
    by (auto simp: FileStream_writesome_def)
  from writesome_frame [OF w] w show ?thesis
    by (simp add: FileStream_tell_def FileStream_size_def)
qed

theorem limit_enforcement_witness:
  "FileStream_canWrite
     \<lparr>mode = Write, filePath = ''f'', fileSize = 999999999, currentOffset = 999999999,
        buffer = [], fd = 3\<rparr>
   \<and> write_ready
     \<lparr>mode = Write, filePath = ''f'', fileSize = 999999999, currentOffset = 999999999,
        buffer = [], fd = 3\<rparr>
     \<lparr>fdnum = 3, disk = Some [], acc = Some O_WRONLY, pos = 999999999, wfaults = [], rfaults = [],
        calls = [SysOpen, SysLseek 3 999999999]\<rparr>
   \<and> MAX_WRITE_FILE_SIZE \<le> FileStream_tell
     \<lparr>mode = Write, filePath = ''f'', fileSize = 999999999, currentOffset = 999999999,
        buffer = [], fd = 3\<rparr> + length [7 :: byte_t]
   \<and> (\<exists>st1 s1. FileStream_writesome
     \<lparr>mode = Write, filePath = ''f'', fileSize = 999999999, currentOffset = 999999999,
        buffer = [], fd = 3\<rparr>
     \<lparr>fdnum = 3, disk = Some [], acc = Some O_WRONLY, pos = 999999999, wfaults = [], rfaults = [],
        calls = [SysOpen, SysLseek 3 999999999]\<rparr> [7] = Some (Inl SizeLimitExceeded, st1, s1)
       \<and> FileStream_tell st1 = 999999999 \<and> FileStream_size st1 = 999999999)"
proof -
  let ?st = "\<lparr>mode = Write, filePath = ''f'', fileSize = 999999999, currentOffset = 999999999,
        buffer = [], fd = 3\<rparr>"
  let ?s = "\<lparr>fdnum = 3, disk = Some [], acc = Some O_WRONLY, pos = 999999999, wfaults = [], rfaults = [],
        calls = [SysOpen, SysLseek 3 999999999]\<rparr>"
  have h1: "FileStream_canWrite ?st" by (simp add: FileStream_canWrite_def)
  have h2: "write_ready ?st ?s" by (simp add: write_ready_def )
  have h3: "MAX_WRITE_FILE_SIZE \<le> FileStream_tell ?st + length [7 :: byte_t]"
    by (simp add: MAX_WRITE_FILE_SIZE_def FileStream_tell_def)
  from limit_enforcement [OF h1 h2 h3] h1 h2 h3 show ?thesis
    by (simp add: FileStream_tell_def FileStream_size_def)
qed

theorem limit_enforcement_counterexample:
  "run [OpSeek 999999000]
     (\<lparr>mode = Write, filePath = ''f'', fileSize = 0, currentOffset = 0, buffer = [], fd = 3\<rparr>,
      \<lparr>fdnum = 3, disk = Some [], acc = Some O_WRONLY, pos = 0, wfaults = [], rfaults = [],
         calls = [SysOpen]\<rparr>)
   = Some
     (\<lparr>mode = Write, filePath = ''f'', fileSize = 999999000, currentOffset = 999999000,
         buffer = [], fd = 3\<rparr>,
      \<lparr>fdnum = 3, disk = Some [], acc = Some O_WRONLY, pos = 999999000, wfaults = [], rfaults = [],
         calls = [SysOpen, SysLseek 3 999999000]\<rparr>)
   \<and> FileStream_writesome
     \<lparr>mode = Write, filePath = ''f'', fileSize = 999999000, currentOffset = 999999000,
        buffer = [], fd = 3\<rparr>
     \<lparr>fdnum = 3, disk = Some [], acc = Some O_WRONLY, pos = 999999000, wfaults = [], rfaults = [],
        calls = [SysOpen, SysLseek 3 999999000]\<rparr>
     (replicate 5000 187)
   = Some (Inl SizeLimitExceeded,
     \<lparr>mode = Write, filePath = ''f'', fileSize = 999999000, currentOffset = 999999000,
        buffer = [], fd = 3\<rparr>,
     \<lparr>fdnum = 3, disk = Some (replicate 999999000 0 @ replicate 4096 187), acc = Some O_WRONLY,
        pos = 1000003096, wfaults = [], rfaults = [],
        calls = [SysOpen, SysLseek 3 999999000, SysWrite 3 (replicate 4096 187)]\<rparr>)
   \<and> MAX_WRITE_FILE_SIZE < length (replicate 999999000 (0 :: byte_t) @ replicate 4096 187)"
  by (simp add: model_defs write_loop.simps)

section \<open>The buffer boundary\<close>

lemma init_ready:
  assumes "FileStreamImpl_init fp trunc m s0 = (Inr st, s)" and "m = Write \<or> m = ReadWrite"
    and "wfaults s0 = []"
  shows "FileStream_canWrite st" and "write_ready st s" and "disk s = Some []" and "pos s = 0"
    and "buffer st = []" and "currentOffset st = 0" and "fileSize st = 0"
    and "rfaults s = rfaults s0" and "fd st = int (fdnum s)"
proof -
  note i = init_Inr [OF assms(1)]
  from assms(2) have nr: "m \<noteq> Read" by auto
  show "FileStream_canWrite st" using i(1) assms(2) by (simp add: FileStream_canWrite_def)
  show d: "disk s = Some []" using i(13) [OF nr] .
  show "write_ready st s"
    using i(5,7,10) d assms(2,3) by (auto simp: write_ready_def open_flags_def)
  show "pos s = 0" by (rule i(9))
  show "buffer st = []" by (rule i(4))
  show "currentOffset st = 0" by (rule i(3))
  show "fileSize st = 0" using i(6) [OF d] by simp
  show "rfaults s = rfaults s0" by (rule i(11))
  show "fd st = int (fdnum s)" by (rule i(5))
qed

lemma native_writes_calls:
  "calls s1 = calls s @ [SysWrite d bs] \<Longrightarrow> native_writes s1 = native_writes s + 1"
  by (simp add: native_writes_def)

text \<open>
  \<open>close\<close> on a writable stream whose native writes are served: the staged bytes go out
  in one native write, whether or not the descriptor is then closed (\<open>fd > 0\<close>).
\<close>

lemma close_after_flush:
  assumes "FileStreamImpl_flush st s = (Inr k, st1, s1)"
  shows "\<exists>st2 s2. FileStreamImpl_close st s = (Inr (), st2, s2) \<and> buffer st2 = buffer st1
           \<and> disk s2 = disk s1 \<and> rfaults s2 = rfaults s1 \<and> wfaults s2 = wfaults s1
           \<and> native_writes s2 = native_writes s1"
proof (cases "0 < fd st1")
  case True
  then show ?thesis
    by (simp add: FileStreamImpl_close_def assms sys_fsync_def sys_close_def native_writes_def
        Let_def)
next
  case False
  then show ?thesis by (simp add: FileStreamImpl_close_def assms)
qed

lemma close_ready:
  assumes "FileStream_canWrite st" and "write_ready st s" and "disk s = Some c"
  shows "\<exists>st1 s1. FileStreamImpl_close st s = (Inr (), st1, s1)
           \<and> buffer st1 = [] \<and> disk s1 = Some (store c (pos s) (buffer st))
           \<and> rfaults s1 = rfaults s \<and> wfaults s1 = []
           \<and> native_writes s1 = native_writes s + (if buffer st = [] then 0 else 1)"
proof (cases "buffer st = []")
  case True
  then have fl: "FileStreamImpl_flush st s = (Inr 0, st, s)" by (simp add: flush_noop)
  have "wfaults s = []" using assms(2) by (simp add: write_ready_def)
  with close_after_flush [OF fl] True assms(3) show ?thesis by (auto simp: store_def)
next
  case False
  define s2 where "s2 = snd (sys_write s (fd st) (buffer st))"
  note w = sys_write_ready [OF assms(2,3), of "buffer st", folded s2_def]
  have fl: "FileStreamImpl_flush st s = (Inr (length (buffer st)), st\<lparr>buffer := []\<rparr>, s2)"
    using flush_writable [OF assms(1) False, of s] w(1)
    by (cases "sys_write s (fd st) (buffer st)") (simp add: s2_def)
  have "native_writes s2 = native_writes s + 1"
    by (rule native_writes_calls [OF w(7)])
  with close_after_flush [OF fl] False w(2,5,6) show ?thesis by auto
qed

lemma write_exactly_capacity:
  assumes cw: "FileStream_canWrite st" and rd: "write_ready st s" and d: "disk s = Some c"
    and buf: "buffer st = []" and off: "currentOffset st + kBufferSize < MAX_WRITE_FILE_SIZE"
    and len: "length data = kBufferSize"
  shows "FileStreamImpl_write st s data =
     Some (Inr kBufferSize,
           st\<lparr>buffer := data, currentOffset := currentOffset st + kBufferSize,
              fileSize := max (fileSize st) (currentOffset st + kBufferSize)\<rparr>, s)"
proof -
  have n: "0 < length data" using len by (simp add: kBufferSize_def)
  have k: "kBufferSize = min (length data - 0) (kBufferSize - length (buffer st))"
    using len buf by simp
  have b: "data = buffer st @ take kBufferSize (drop 0 data)" using len buf by simp
  from write_body_ready [OF cw rd d n k b] len
  have "write_body st s data 0 = write_limit_check (st\<lparr>buffer := data\<rparr>) s kBufferSize"
    by auto
  with off have "write_body st s data 0 = Continue (st\<lparr>buffer := data\<rparr>) s kBufferSize"
    by (simp add: write_limit_check_def)
  from write_loop_finish [OF this] len show ?thesis
    by (simp add: FileStreamImpl_write_def)
qed

lemma write_capacity_plus_one:
  assumes cw: "FileStream_canWrite st" and rd: "write_ready st s" and d: "disk s = Some c"
    and buf: "buffer st = []" and off: "currentOffset st + (kBufferSize + 1) < MAX_WRITE_FILE_SIZE"
    and len: "length data = kBufferSize + 1"
  shows "\<exists>st1 s1. FileStreamImpl_write st s data = Some (Inr (kBufferSize + 1), st1, s1)
           \<and> buffer st1 = [] \<and> FileStream_canWrite st1 \<and> write_ready st1 s1 \<and> disk s1 \<noteq> None
           \<and> calls s1 = calls s @ [SysWrite (fd st) (take kBufferSize data),
                                    SysWrite (fd st) (drop kBufferSize data)]"
proof -
  have n: "0 < length data" using len by simp
  have k: "kBufferSize = min (length data - 0) (kBufferSize - length (buffer st))"
    using len buf by simp
  have b: "take kBufferSize data = buffer st @ take kBufferSize (drop 0 data)" using buf by simp
  from write_body_ready [OF cw rd d n k b] len
  obtain s1 where wb: "write_body st s data 0
        = write_limit_check (st\<lparr>buffer := []\<rparr>) s1 kBufferSize"
    and rd1: "write_ready st s1"
    and c1: "calls s1 = calls s @ [SysWrite (fd st) (take kBufferSize data)]"
    and d1: "disk s1 = Some (store c (pos s) (take kBufferSize data))"
    by auto
  let ?st1 = "st\<lparr>buffer := []\<rparr>"
  from wb off have cont1: "write_body st s data 0 = Continue ?st1 s1 kBufferSize"
    by (simp add: write_limit_check_def)
  have cw1: "FileStream_canWrite ?st1" using cw by (simp add: FileStream_canWrite_def)
  have rd1': "write_ready ?st1 s1" using rd1 by (simp add: write_ready_def)
  have n2: "kBufferSize < length data" using len by simp
  have k2: "1 = min (length data - kBufferSize) (kBufferSize - length (buffer ?st1))"
    using len by (simp add: kBufferSize_def)
  have b2: "drop kBufferSize data = buffer ?st1 @ take 1 (drop kBufferSize data)"
    using len by simp
  from write_body_ready [OF cw1 rd1' d1 n2 k2 b2] len
  obtain s2 where wb2: "write_body ?st1 s1 data kBufferSize
        = write_limit_check ?st1 s2 (kBufferSize + 1)"
    and rd2: "write_ready ?st1 s2"
    and c2: "calls s2 = calls s1 @ [SysWrite (fd st) (drop kBufferSize data)]"
    and d2: "disk s2 \<noteq> None"
    by (auto simp: kBufferSize_def)
  from wb2 off have cont2: "write_body ?st1 s1 data kBufferSize = Continue ?st1 s2 (kBufferSize + 1)"
    by (simp add: write_limit_check_def)
  have "write_loop st s data 0 = write_loop ?st1 s1 data kBufferSize"
    by (rule write_loop_next [OF cont1 n2])
  also have "\<dots> = Some (Inr (kBufferSize + 1),
       ?st1\<lparr>currentOffset := currentOffset ?st1 + (kBufferSize + 1),
            fileSize := max (fileSize ?st1) (currentOffset ?st1 + (kBufferSize + 1))\<rparr>, s2)"
    using write_loop_finish [OF cont2] len by simp
  finally show ?thesis
    using c1 c2 rd2 d2 cw by (simp add: FileStreamImpl_write_def write_ready_def FileStream_canWrite_def)
qed

text \<open>
  C7 (buffer-boundary flush count), as the code has it.  On a freshly opened writable
  stream whose native writes are served:
  \<^item> writing exactly \<open>kBufferSize\<close> bytes issues no native write during the call (the bytes
    fill the buffer and stay staged); the one native write that carries them is issued by
    the next flush, here by \<open>close()\<close>;
  \<^item> writing \<open>kBufferSize + 1\<close> bytes issues exactly two native writes during the call,
    and \<open>close()\<close> adds none.
  Counted up to and including \<open>close()\<close> the numbers are one and two.
\<close>

theorem buffer_boundary_flushes:
  assumes "FileStreamImpl_init fp trunc m s0 = (Inr st, s)" and "m = Write \<or> m = ReadWrite"
    and "wfaults s0 = []"
  shows "(length data = kBufferSize \<longrightarrow>
           (\<exists>st1 s1. FileStream_writesome st s data = Some (Inr kBufferSize, st1, s1)
              \<and> native_writes s1 = native_writes s
              \<and> native_writes (snd (snd (FileStream_close st1 s1))) = native_writes s + 1))
       \<and> (length data = kBufferSize + 1 \<longrightarrow>
           (\<exists>st1 s1. FileStream_writesome st s data = Some (Inr (kBufferSize + 1), st1, s1)
              \<and> native_writes s1 = native_writes s + 2
              \<and> native_writes (snd (snd (FileStream_close st1 s1))) = native_writes s + 2))"
proof (intro conjI impI)
  note r = init_ready [OF assms]
  assume len: "length data = kBufferSize"
  have off: "currentOffset st + kBufferSize < MAX_WRITE_FILE_SIZE"
    using r(6) by (simp add: kBufferSize_def MAX_WRITE_FILE_SIZE_def)
  let ?st1 = "st\<lparr>buffer := data, currentOffset := currentOffset st + kBufferSize,
              fileSize := max (fileSize st) (currentOffset st + kBufferSize)\<rparr>"
  have w: "FileStreamImpl_write st s data = Some (Inr kBufferSize, ?st1, s)"
    by (rule write_exactly_capacity [OF r(1,2,3,5) off len])
  have cw1: "FileStream_canWrite ?st1" using r(1) by (simp add: FileStream_canWrite_def)
  have rd1: "write_ready ?st1 s" using r(2) by (simp add: write_ready_def)
  have ne: "data \<noteq> []" using len by (auto simp: kBufferSize_def)
  from close_ready [OF cw1 rd1 r(3)] ne
  have "native_writes (snd (snd (FileStream_close ?st1 s))) = native_writes s + 1"
    by (auto simp: FileStream_close_def)
  with w show "\<exists>st1 s1. FileStream_writesome st s data = Some (Inr kBufferSize, st1, s1)
              \<and> native_writes s1 = native_writes s
              \<and> native_writes (snd (snd (FileStream_close st1 s1))) = native_writes s + 1"
    by (simp add: FileStream_writesome_def)
next
  note r = init_ready [OF assms]
  assume len: "length data = kBufferSize + 1"
  have off: "currentOffset st + (kBufferSize + 1) < MAX_WRITE_FILE_SIZE"
    using r(6) by (simp add: kBufferSize_def MAX_WRITE_FILE_SIZE_def)
  from write_capacity_plus_one [OF r(1,2,3,5) off len]
  obtain st1 s1 where w: "FileStreamImpl_write st s data = Some (Inr (kBufferSize + 1), st1, s1)"
    and b1: "buffer st1 = []" and cw1: "FileStream_canWrite st1" and rd1: "write_ready st1 s1"
    and d1: "disk s1 \<noteq> None"
    and c1: "calls s1 = calls s @ [SysWrite (fd st) (take kBufferSize data),
                                    SysWrite (fd st) (drop kBufferSize data)]"
    by blast
  have nw: "native_writes s1 = native_writes s + 2" using c1 by (simp add: native_writes_def)
  from d1 obtain c where "disk s1 = Some c" by auto
  from close_ready [OF cw1 rd1 this] b1
  have "native_writes (snd (snd (FileStream_close st1 s1))) = native_writes s1"
    by (auto simp: FileStream_close_def)
  with w nw show "\<exists>st1 s1. FileStream_writesome st s data = Some (Inr (kBufferSize + 1), st1, s1)
              \<and> native_writes s1 = native_writes s + 2
              \<and> native_writes (snd (snd (FileStream_close st1 s1))) = native_writes s + 2"
    by (auto simp: FileStream_writesome_def)
qed

theorem buffer_boundary_flushes_witness:
  "FileStreamImpl_init ''f'' False Write os_fresh =
     (Inr \<lparr>mode = Write, filePath = ''f'', fileSize = 0, currentOffset = 0, buffer = [], fd = 3\<rparr>,
      \<lparr>fdnum = 3, disk = Some [], acc = Some O_WRONLY, pos = 0, wfaults = [], rfaults = [], calls = [SysOpen]\<rparr>)
   \<and> wfaults os_fresh = []
   \<and> length (replicate 4097 (170 :: byte_t)) = kBufferSize + 1
   \<and> (\<exists>st1 s1. FileStream_writesome
          \<lparr>mode = Write, filePath = ''f'', fileSize = 0, currentOffset = 0, buffer = [], fd = 3\<rparr>
          \<lparr>fdnum = 3, disk = Some [], acc = Some O_WRONLY, pos = 0, wfaults = [], rfaults = [],
             calls = [SysOpen]\<rparr>
          (replicate 4097 170) = Some (Inr (kBufferSize + 1), st1, s1)
        \<and> native_writes s1 = 0 + 2
        \<and> native_writes (snd (snd (FileStream_close st1 s1))) = 0 + 2)"
proof -
  have h1: "FileStreamImpl_init ''f'' False Write os_fresh =
     (Inr \<lparr>mode = Write, filePath = ''f'', fileSize = 0, currentOffset = 0, buffer = [], fd = 3\<rparr>,
      \<lparr>fdnum = 3, disk = Some [], acc = Some O_WRONLY, pos = 0, wfaults = [], rfaults = [], calls = [SysOpen]\<rparr>)"
    by (simp add: model_defs)
  have h2: "Write = Write \<or> Write = ReadWrite" by simp
  have h3: "wfaults os_fresh = []" by (simp add: os_fresh_def)
  have h4: "length (replicate 4097 (170 :: byte_t)) = kBufferSize + 1"
    by (simp add: kBufferSize_def)
  have h5: "native_writes \<lparr>fdnum = 3, disk = Some [], acc = Some O_WRONLY, pos = 0, wfaults = [],
      rfaults = [], calls = [SysOpen]\<rparr> = 0"
    by (simp add: native_writes_def)
  from buffer_boundary_flushes [OF h1 h2 h3, of "replicate 4097 170"] h1 h3 h4
  show ?thesis unfolding h5 by simp
qed

theorem buffer_boundary_flushes_counterexample:
  "FileStreamImpl_init ''f'' False Write os_fresh =
     (Inr \<lparr>mode = Write, filePath = ''f'', fileSize = 0, currentOffset = 0, buffer = [], fd = 3\<rparr>,
      \<lparr>fdnum = 3, disk = Some [], acc = Some O_WRONLY, pos = 0, wfaults = [], rfaults = [], calls = [SysOpen]\<rparr>)
   \<and> length (replicate 4096 (170 :: byte_t)) = kBufferSize
   \<and> FileStream_writesome
        \<lparr>mode = Write, filePath = ''f'', fileSize = 0, currentOffset = 0, buffer = [], fd = 3\<rparr>
        \<lparr>fdnum = 3, disk = Some [], acc = Some O_WRONLY, pos = 0, wfaults = [], rfaults = [], calls = [SysOpen]\<rparr>
        (replicate 4096 170)
      = Some (Inr 4096,
        \<lparr>mode = Write, filePath = ''f'', fileSize = 4096, currentOffset = 4096,
           buffer = replicate 4096 170, fd = 3\<rparr>,
        \<lparr>fdnum = 3, disk = Some [], acc = Some O_WRONLY, pos = 0, wfaults = [], rfaults = [], calls = [SysOpen]\<rparr>)
   \<and> native_writes
        \<lparr>fdnum = 3, disk = Some [], acc = Some O_WRONLY, pos = 0, wfaults = [], rfaults = [], calls = [SysOpen]\<rparr>
      = 0"
  by (simp add: model_defs write_loop.simps)

section \<open>The round trip\<close>

lemma init_writable_succeeds:
  assumes "acc s0 = None" and "m = Write \<or> m = ReadWrite"
  shows "\<exists>st s. FileStreamImpl_init fp trunc m s0 = (Inr st, s)"
  using assms
  by (auto simp: FileStreamImpl_init_def open_flags_def sys_open_def sys_fstat_size_def
      fs_remove_def Let_def)

lemma init_Read:
  assumes "disk s = Some c" and "length c < 2 ^ 63"
  shows "\<exists>d. FileStreamImpl_init fp False Read s =
     (Inr \<lparr>mode = Read, filePath = fp, fileSize = length c, currentOffset = 0, buffer = [],
           fd = int d\<rparr>,
      s\<lparr>calls := calls s @ [SysOpen], fdnum := d, acc := Some O_RDONLY, pos := 0\<rparr>)"
  using assms
  by (simp add: FileStreamImpl_init_def open_flags_def sys_open_def sys_fstat_size_def Let_def)

lemma write_ready_all:
  assumes cw: "FileStream_canWrite st" and rd: "write_ready st s" and d: "disk s = Some c"
    and p: "pos s = length c" and off: "currentOffset st + length data < MAX_WRITE_FILE_SIZE"
  shows "\<exists>st1 s1 c1. FileStreamImpl_write st s data = Some (Inr (length data), st1, s1)
           \<and> FileStream_canWrite st1 \<and> write_ready st1 s1 \<and> disk s1 = Some c1
           \<and> pos s1 = length c1 \<and> c1 @ buffer st1 = c @ buffer st @ data
           \<and> rfaults s1 = rfaults s"
proof (cases "data = []")
  case True
  with off have "FileStreamImpl_write st s data
      = Some (Inr (length data), st\<lparr>fileSize := max (fileSize st) (currentOffset st)\<rparr>, s)"
    by (simp add: write_nil)
  with cw rd d p True show ?thesis
    by (simp add: FileStream_canWrite_def write_ready_def)
next
  case False
  then have n: "0 < length data" by simp
  from write_loop_ready [OF cw rd d p n off]
  obtain st1 s1 c1 where w: "write_loop st s data 0 = Some (Inr (length data), st1, s1)"
    and q: "write_ready st1 s1" "disk s1 = Some c1" "pos s1 = length c1"
      "c1 @ buffer st1 = c @ buffer st @ data" "rfaults s1 = rfaults s"
    by auto
  from write_loop_frame [OF w] cw have "FileStream_canWrite st1"
    by (simp add: FileStream_canWrite_def)
  with w q show ?thesis by (simp add: FileStreamImpl_write_def)
qed

text \<open>
  C1 (round trip), as the code has it.  With an operating system that serves every call,
  for every byte sequence shorter than the maximum file size: opening the file for writing
  (\<open>Write\<close> or \<open>ReadWrite\<close>), writing the bytes, closing, opening again in \<open>Read\<close> mode and
  reading at least that many bytes from offset 0 returns exactly the bytes written.
\<close>

theorem round_trip:
  assumes "acc s0 = None" and "wfaults s0 = []" and "rfaults s0 = []"
    and "m = Write \<or> m = ReadWrite"
    and "length data < MAX_WRITE_FILE_SIZE" and "length data \<le> len"
  shows "write_then_read s0 fp trunc m data len = Some (Inr data)"
proof -
  from init_writable_succeeds [OF assms(1,4)]
  obtain st s where i: "FileStreamImpl_init fp trunc m s0 = (Inr st, s)" by blast
  note r = init_ready [OF i assms(4,2)]
  have off: "currentOffset st + length data < MAX_WRITE_FILE_SIZE" using r(6) assms(5) by simp
  have p: "pos s = length ([] :: byte_t list)" using r(4) by simp
  from write_ready_all [OF r(1,2,3) p off] r(5,8) assms(3)
  obtain st1 s1 c1 where w: "FileStreamImpl_write st s data = Some (Inr (length data), st1, s1)"
    and cw1: "FileStream_canWrite st1" and rd1: "write_ready st1 s1"
    and d1: "disk s1 = Some c1" and p1: "pos s1 = length c1"
    and c1: "c1 @ buffer st1 = data" and rf1: "rfaults s1 = []"
    by auto
  from close_ready [OF cw1 rd1 d1] p1 c1 rf1
  obtain st2 s2 where c: "FileStreamImpl_close st1 s1 = (Inr (), st2, s2)"
    and d2: "disk s2 = Some data" and rf2: "rfaults s2 = []"
    by (auto simp: store_def)
  have small: "length data < 2 ^ 63" using assms(5) by (simp add: MAX_WRITE_FILE_SIZE_def)
  from init_Read [OF d2 small, of fp] obtain d where
    i2: "FileStreamImpl_init fp False Read s2 =
      (Inr \<lparr>mode = Read, filePath = fp, fileSize = length data, currentOffset = 0,
            buffer = [], fd = int d\<rparr>,
       s2\<lparr>calls := calls s2 @ [SysOpen], fdnum := d, acc := Some O_RDONLY, pos := 0\<rparr>)"
    by blast
  let ?st3 = "\<lparr>mode = Read, filePath = fp, fileSize = length data, currentOffset = 0,
      buffer = [], fd = int d\<rparr>"
  let ?s3 = "s2\<lparr>calls := calls s2 @ [SysOpen], fdnum := d, acc := Some O_RDONLY, pos := 0\<rparr>"
  have le: "length data \<le> min len (2 ^ 64 - 1)" using assms(6) small by simp
  have "min len (2 ^ 64 - 1) mod 2 ^ 64 = min len (2 ^ 64 - 1)" by simp
  with le have clamp: "length data \<le> (0 + min len (2 ^ 64 - 1)) mod 2 ^ 64" by simp
  have rd: "fst (FileStream_readsome ?st3 ?s3 (min len (2 ^ 64 - 1))) = Inr data"
    using clamp d2 rf2 small
    by (simp add: FileStream_readsome_def FileStreamImpl_read_def sys_read_def transfer_def Let_def
        del: min_less_iff_conj)
  show ?thesis
    using rd unfolding write_then_read_def
    by (simp add: i FileStream_writesome_def w FileStream_close_def c i2)
qed

theorem round_trip_witness:
  "acc os_fresh = None \<and> wfaults os_fresh = [] \<and> rfaults os_fresh = []
   \<and> length (replicate 8192 (170 :: byte_t) @ [1, 2, 3]) < MAX_WRITE_FILE_SIZE
   \<and> length (replicate 8192 (170 :: byte_t) @ [1, 2, 3]) \<le> 8195
   \<and> write_then_read os_fresh ''f'' False Write (replicate 8192 170 @ [1, 2, 3]) 8195
       = Some (Inr (replicate 8192 170 @ [1, 2, 3]))"
proof -
  have h: "acc os_fresh = None" "wfaults os_fresh = []" "rfaults os_fresh = []"
    "Write = Write \<or> Write = ReadWrite"
    "length (replicate 8192 (170 :: byte_t) @ [1, 2, 3]) < MAX_WRITE_FILE_SIZE"
    "length (replicate 8192 (170 :: byte_t) @ [1, 2, 3]) \<le> 8195"
    by (simp_all add: os_fresh_def MAX_WRITE_FILE_SIZE_def)
  from round_trip [OF h, of "''f''" False] h show ?thesis by simp
qed

theorem round_trip_counterexample:
  "write_then_read os_fresh ''f'' False Write (replicate 1000000000 0) 1000000000
     = Some (Inl SizeLimitExceeded)"
proof -
  let ?st = "\<lparr>mode = Write, filePath = ''f'', fileSize = 0, currentOffset = 0, buffer = [], fd = 3\<rparr>"
  let ?s = "\<lparr>fdnum = 3, disk = Some [], acc = Some O_WRONLY, pos = 0, wfaults = [], rfaults = [],
     calls = [SysOpen]\<rparr>"
  have i: "FileStreamImpl_init ''f'' False Write os_fresh = (Inr ?st, ?s)"
    by (simp add: model_defs)
  have "FileStream_canWrite ?st" by (simp add: FileStream_canWrite_def)
  moreover have "write_ready ?st ?s" by (simp add: write_ready_def )
  moreover have "MAX_WRITE_FILE_SIZE \<le> currentOffset ?st + length (replicate 1000000000 (0 :: byte_t))"
    by (simp add: MAX_WRITE_FILE_SIZE_def)
  ultimately obtain st1 s1 where
    "FileStreamImpl_write ?st ?s (replicate 1000000000 0) = Some (Inl SizeLimitExceeded, st1, s1)"
    using write_limit by blast
  then show ?thesis
    unfolding write_then_read_def by (simp add: i FileStream_writesome_def)
qed

section \<open>After close\<close>

lemma close_Inr:
  assumes "FileStreamImpl_close st s = (Inr (), st1, s1)" and "0 < fd st"
  shows "fd st1 = - 1" and "\<not> FileStream_canWrite st1 \<or> buffer st1 = []"
proof -
  obtain r2 st2 s2 where fl: "FileStreamImpl_flush st s = (r2, st2, s2)"
    using prod_cases3 by blast
  from assms fl obtain k where r2: "r2 = Inr k"
    by (cases r2) (auto simp: FileStreamImpl_close_def)
  have fd2: "fd st2 = fd st" using flush_frame [OF fl] by simp
  from assms fl r2 fd2 have st1: "st1 = st2\<lparr>fd := - 1\<rparr>"
    by (auto simp: FileStreamImpl_close_def Let_def)
  then show "fd st1 = - 1" by simp
  have "\<not> FileStream_canWrite st2 \<or> buffer st2 = []"
    using fl unfolding r2
    by (auto simp: FileStreamImpl_flush_def FileStream_canWrite_def IOBuffer_hasData_def
        IOBuffer_reset_def split: if_splits prod.splits option.splits)
  then show "\<not> FileStream_canWrite st1 \<or> buffer st1 = []"
    by (simp add: st1 FileStream_canWrite_def)
qed

lemma closed_descriptor: "(- 1 :: int) \<noteq> int k"
  by simp

lemma closed_readsome:
  assumes "fd st = - 1"
  shows "fst (FileStream_readsome st s n) = Inl ReadError"
    and "fst (snd (FileStream_readsome st s n)) = st"
proof -
  have rd: "FileStreamImpl_read st s k = (Inl ReadError, st, snd (sys_read s (fd st) k))" for k
    using assms closed_descriptor [of "fdnum s"]
    by (simp add: FileStreamImpl_read_def sys_read_def Let_def)
  show "fst (FileStream_readsome st s n) = Inl ReadError"
    by (simp add: FileStream_readsome_def rd Let_def)
  show "fst (snd (FileStream_readsome st s n)) = st"
    by (simp add: FileStream_readsome_def rd Let_def)
qed

lemma closed_seek:
  assumes "fd st = - 1"
  shows "fst (FileStream_seek st s p)
           = (if FileStream_canWrite st \<and> buffer st \<noteq> [] then Inl WriteError else Inl SeekError)"
    and "fst (snd (FileStream_seek st s p)) = st"
proof -
  have sk: "FileStreamImpl_seek st s p
      = (if FileStream_canWrite st \<and> buffer st \<noteq> []
         then (Inl WriteError, st, snd (sys_write s (fd st) (buffer st)))
         else (Inl SeekError, st, snd (sys_lseek s (fd st) p)))"
  proof (cases "FileStream_canWrite st \<and> buffer st \<noteq> []")
    case True
    then have cw: "FileStream_canWrite st" and ne: "buffer st \<noteq> []" by auto
    have "sys_write s (fd st) (buffer st) = (None, snd (sys_write s (fd st) (buffer st)))"
      using assms closed_descriptor [of "fdnum s"] by (simp add: sys_write_def Let_def)
    then have "FileStreamImpl_flush st s
        = (Inl WriteError, st, snd (sys_write s (fd st) (buffer st)))"
      unfolding flush_writable [OF cw ne]
      by (cases "sys_write s (fd st) (buffer st)") auto
    with True show ?thesis by (simp add: FileStreamImpl_seek_def)
  next
    case False
    then have fl: "FileStreamImpl_flush st s = (Inr 0, st, s)" by (auto intro: flush_noop)
    have "sys_lseek s (fd st) p = (None, snd (sys_lseek s (fd st) p))"
      using assms closed_descriptor [of "fdnum s"] by (simp add: sys_lseek_def Let_def)
    with False fl show ?thesis
      by (cases "sys_lseek s (fd st) p") (auto simp: FileStreamImpl_seek_def)
  qed
  show "fst (FileStream_seek st s p)
           = (if FileStream_canWrite st \<and> buffer st \<noteq> [] then Inl WriteError else Inl SeekError)"
    by (simp add: FileStream_seek_def sk)
  show "fst (snd (FileStream_seek st s p)) = st"
    by (simp add: FileStream_seek_def sk)
qed

text \<open>
  \<open>close\<close> tests \<open>fd > 0\<close>.  A stream that \<open>open\<close> gave descriptor 0 is not closed by
  \<open>close()\<close>: no system call is made, the descriptor stays open and a later read succeeds.
\<close>

lemma close_on_descriptor_zero:
  "FileStreamImpl_init ''f'' False Read
      \<lparr>fdnum = 0, disk = Some [1, 2, 3], acc = None, pos = 0, wfaults = [], rfaults = [],
         calls = []\<rparr>
    = (Inr \<lparr>mode = Read, filePath = ''f'', fileSize = 3, currentOffset = 0, buffer = [], fd = 0\<rparr>,
       \<lparr>fdnum = 0, disk = Some [1, 2, 3], acc = Some O_RDONLY, pos = 0, wfaults = [],
          rfaults = [], calls = [SysOpen]\<rparr>)
   \<and> FileStream_close
        \<lparr>mode = Read, filePath = ''f'', fileSize = 3, currentOffset = 0, buffer = [], fd = 0\<rparr>
        \<lparr>fdnum = 0, disk = Some [1, 2, 3], acc = Some O_RDONLY, pos = 0, wfaults = [],
           rfaults = [], calls = [SysOpen]\<rparr>
    = (Inr (),
       \<lparr>mode = Read, filePath = ''f'', fileSize = 3, currentOffset = 0, buffer = [], fd = 0\<rparr>,
       \<lparr>fdnum = 0, disk = Some [1, 2, 3], acc = Some O_RDONLY, pos = 0, wfaults = [],
          rfaults = [], calls = [SysOpen]\<rparr>)
   \<and> fst (FileStream_readsome
        \<lparr>mode = Read, filePath = ''f'', fileSize = 3, currentOffset = 0, buffer = [], fd = 0\<rparr>
        \<lparr>fdnum = 0, disk = Some [1, 2, 3], acc = Some O_RDONLY, pos = 0, wfaults = [],
           rfaults = [], calls = [SysOpen]\<rparr> 2) = Inr [1, 2]"
  by (simp add: model_defs)

text \<open>
  C3 (use after close), as the code has it.  Take a stream that was opened on a descriptor
  greater than 0 and on which \<open>close()\<close> has completed.  From then on, after any further
  reads, writes, seeks and closes and whatever the operating system does, every read fails
  with the read error, and every seek fails with the seek error, or with the write error
  out of its flush when a later write has left staged bytes on a writable stream.  These
  are \<open>FileStreamError\<close>s; the source has no \<open>UseAfterClose\<close> kind.  The failing call
  leaves the stream object as it was.  Nothing is said about a later \<open>write\<close>: the code
  stages its bytes without touching the closed descriptor.
\<close>

theorem use_after_close:
  assumes "FileStream_close st s = (Inr (), st1, s1)" and "0 < fd st"
    and "run ops (st1, s1) = Some (st2, s2)"
  shows "fst (FileStream_readsome st2 s3 n) = Inl ReadError
       \<and> fst (snd (FileStream_readsome st2 s3 n)) = st2
       \<and> fst (FileStream_seek st2 s3 p)
           = (if FileStream_canWrite st2 \<and> buffer st2 \<noteq> [] then Inl WriteError
              else Inl SeekError)
       \<and> fst (snd (FileStream_seek st2 s3 p)) = st2"
proof -
  from assms(1) have c: "FileStreamImpl_close st s = (Inr (), st1, s1)"
    by (simp add: FileStream_close_def)
  have "fd st1 = - 1" by (rule close_Inr(1) [OF c assms(2)])
  with run_frame [OF assms(3)] have cl: "fd st2 = - 1" by simp
  from closed_readsome [OF cl] closed_seek [OF cl] show ?thesis by simp
qed

theorem use_after_close_witness:
  "FileStream_close
      \<lparr>mode = Write, filePath = ''f'', fileSize = 0, currentOffset = 0, buffer = [], fd = 3\<rparr>
      \<lparr>fdnum = 3, disk = Some [], acc = Some O_WRONLY, pos = 0, wfaults = [], rfaults = [],
         calls = [SysOpen]\<rparr>
    = (Inr (),
      \<lparr>mode = Write, filePath = ''f'', fileSize = 0, currentOffset = 0, buffer = [], fd = - 1\<rparr>,
      \<lparr>fdnum = 3, disk = Some [], acc = None, pos = 0, wfaults = [], rfaults = [],
         calls = [SysOpen, SysFsync 3, SysClose 3]\<rparr>)
   \<and> (0 :: int) < fd \<lparr>mode = Write, filePath = ''f'', fileSize = 0, currentOffset = 0, buffer = [], fd = 3\<rparr>
   \<and> run [OpWrite [65]]
       (\<lparr>mode = Write, filePath = ''f'', fileSize = 0, currentOffset = 0, buffer = [], fd = - 1\<rparr>,
        \<lparr>fdnum = 3, disk = Some [], acc = None, pos = 0, wfaults = [], rfaults = [],
         calls = [SysOpen, SysFsync 3, SysClose 3]\<rparr>)
     = Some
       (\<lparr>mode = Write, filePath = ''f'', fileSize = 1, currentOffset = 1, buffer = [65], fd = - 1\<rparr>,
        \<lparr>fdnum = 3, disk = Some [], acc = None, pos = 0, wfaults = [], rfaults = [],
         calls = [SysOpen, SysFsync 3, SysClose 3]\<rparr>)
   \<and> fst (FileStream_readsome
        \<lparr>mode = Write, filePath = ''f'', fileSize = 1, currentOffset = 1, buffer = [65], fd = - 1\<rparr>
        \<lparr>fdnum = 3, disk = Some [], acc = None, pos = 0, wfaults = [], rfaults = [],
         calls = [SysOpen, SysFsync 3, SysClose 3]\<rparr> 4) = Inl ReadError
   \<and> fst (FileStream_seek
        \<lparr>mode = Write, filePath = ''f'', fileSize = 1, currentOffset = 1, buffer = [65], fd = - 1\<rparr>
        \<lparr>fdnum = 3, disk = Some [], acc = None, pos = 0, wfaults = [], rfaults = [],
         calls = [SysOpen, SysFsync 3, SysClose 3]\<rparr> 0) = Inl WriteError
   \<and> fst (snd (FileStream_seek
        \<lparr>mode = Write, filePath = ''f'', fileSize = 1, currentOffset = 1, buffer = [65], fd = - 1\<rparr>
        \<lparr>fdnum = 3, disk = Some [], acc = None, pos = 0, wfaults = [], rfaults = [],
         calls = [SysOpen, SysFsync 3, SysClose 3]\<rparr> 0))
     = \<lparr>mode = Write, filePath = ''f'', fileSize = 1, currentOffset = 1, buffer = [65], fd = - 1\<rparr>"
proof -
  have h1: "FileStream_close
      \<lparr>mode = Write, filePath = ''f'', fileSize = 0, currentOffset = 0, buffer = [], fd = 3\<rparr>
      \<lparr>fdnum = 3, disk = Some [], acc = Some O_WRONLY, pos = 0, wfaults = [], rfaults = [],
         calls = [SysOpen]\<rparr>
    = (Inr (),
      \<lparr>mode = Write, filePath = ''f'', fileSize = 0, currentOffset = 0, buffer = [], fd = - 1\<rparr>,
      \<lparr>fdnum = 3, disk = Some [], acc = None, pos = 0, wfaults = [], rfaults = [],
         calls = [SysOpen, SysFsync 3, SysClose 3]\<rparr>)"
    by (simp add: model_defs)
  have h2: "(0 :: int) < fd \<lparr>mode = Write, filePath = ''f'', fileSize = 0, currentOffset = 0, buffer = [], fd = 3\<rparr>"
    by simp
  have h3: "run [OpWrite [65]]
       (\<lparr>mode = Write, filePath = ''f'', fileSize = 0, currentOffset = 0, buffer = [], fd = - 1\<rparr>,
        \<lparr>fdnum = 3, disk = Some [], acc = None, pos = 0, wfaults = [], rfaults = [],
         calls = [SysOpen, SysFsync 3, SysClose 3]\<rparr>)
     = Some
       (\<lparr>mode = Write, filePath = ''f'', fileSize = 1, currentOffset = 1, buffer = [65], fd = - 1\<rparr>,
        \<lparr>fdnum = 3, disk = Some [], acc = None, pos = 0, wfaults = [], rfaults = [],
         calls = [SysOpen, SysFsync 3, SysClose 3]\<rparr>)"
    by (simp add: model_defs write_loop.simps)
  from use_after_close [OF h1 h2 h3, of "\<lparr>fdnum = 3, disk = Some [], acc = None, pos = 0, wfaults = [], rfaults = [],
         calls = [SysOpen, SysFsync 3, SysClose 3]\<rparr>" 4 0] h1 h2 h3
  show ?thesis by (simp add: FileStream_canWrite_def)
qed

theorem use_after_close_counterexample:
  "FileStream_close
      \<lparr>mode = Write, filePath = ''f'', fileSize = 0, currentOffset = 0, buffer = [], fd = 3\<rparr>
      \<lparr>fdnum = 3, disk = Some [], acc = Some O_WRONLY, pos = 0, wfaults = [], rfaults = [], calls = [SysOpen]\<rparr>
    = (Inr (),
      \<lparr>mode = Write, filePath = ''f'', fileSize = 0, currentOffset = 0, buffer = [], fd = - 1\<rparr>,
      \<lparr>fdnum = 3, disk = Some [], acc = None, pos = 0, wfaults = [], rfaults = [],
         calls = [SysOpen, SysFsync 3, SysClose 3]\<rparr>)
   \<and> FileStream_writesome
        \<lparr>mode = Write, filePath = ''f'', fileSize = 0, currentOffset = 0, buffer = [], fd = - 1\<rparr>
        \<lparr>fdnum = 3, disk = Some [], acc = None, pos = 0, wfaults = [], rfaults = [],
           calls = [SysOpen, SysFsync 3, SysClose 3]\<rparr> [65]
      = Some (Inr 1,
        \<lparr>mode = Write, filePath = ''f'', fileSize = 1, currentOffset = 1, buffer = [65], fd = - 1\<rparr>,
        \<lparr>fdnum = 3, disk = Some [], acc = None, pos = 0, wfaults = [], rfaults = [],
           calls = [SysOpen, SysFsync 3, SysClose 3]\<rparr>)
   \<and> Inr 1 \<noteq> (Inl UseAfterClose :: error + nat)"
  by (simp add: model_defs write_loop.simps)

section \<open>Reading\<close>

text \<open>
  C5 (EOF clamp), as the code has it.  Take a stream whose native reads are served, with
  \<open>tell() \<le> size()\<close> and \<open>size() < 2 ^ 63\<close> (both hold of every stream, lemma \<open>run_frame\<close>),
  and a requested length \<open>n\<close> for which \<open>tell() + n\<close> does not wrap (\<open>tell() + n < 2 ^ 64\<close>).
  Then \<open>readsome\<close> returns without an error.  It asks the native file, in one call, for
  \<open>min n (size() - tell())\<close> bytes and no more, returns the bytes the native file has from its
  position on, cut to that count, and moves \<open>tell()\<close> and the native position by the number
  of bytes returned.  A read that would cross \<open>size()\<close> returns exactly \<open>size() - tell()\<close>
  bytes when the native file holds the bytes up to \<open>size()\<close> and its position is \<open>tell()\<close>.
  A read at end-of-file returns no byte.
\<close>

theorem eof_clamp:
  assumes "read_ready st s" and "disk s = Some c"
    and "FileStream_tell st \<le> FileStream_size st" and "FileStream_size st < 2 ^ 63"
    and "FileStream_tell st + n < 2 ^ 64"
  shows "(\<exists>s1. FileStream_readsome st s n =
            (Inr (take (min n (FileStream_size st - FileStream_tell st)) (drop (pos s) c)),
             st\<lparr>currentOffset := FileStream_tell st
                + length (take (min n (FileStream_size st - FileStream_tell st)) (drop (pos s) c))\<rparr>,
             s1)
          \<and> calls s1 = calls s @ [SysRead (fd st) (min n (FileStream_size st - FileStream_tell st))]
          \<and> pos s1 = pos s
                + length (take (min n (FileStream_size st - FileStream_tell st)) (drop (pos s) c))
          \<and> disk s1 = disk s \<and> acc s1 = acc s \<and> fdnum s1 = fdnum s
          \<and> wfaults s1 = wfaults s \<and> rfaults s1 = rfaults s)
       \<and> (FileStream_size st \<le> FileStream_tell st + n \<and> pos s = FileStream_tell st
            \<and> FileStream_size st \<le> length c
          \<longrightarrow> length (take (min n (FileStream_size st - FileStream_tell st)) (drop (pos s) c))
                = FileStream_size st - FileStream_tell st)
       \<and> (FileStream_tell st = FileStream_size st
          \<longrightarrow> take (min n (FileStream_size st - FileStream_tell st)) (drop (pos s) c) = [])"
proof -
  define len1 where "len1 = (if fileSize st \<le> (currentOffset st + n) mod 2 ^ 64
                             then fileSize st - currentOffset st else n)"
  have nowrap: "(currentOffset st + n) mod 2 ^ 64 = currentOffset st + n"
    using assms(5) by (simp add: FileStream_tell_def)
  have len1: "len1 = min n (FileStream_size st - FileStream_tell st)"
    using assms(3) unfolding len1_def nowrap
    by (auto simp: FileStream_size_def FileStream_tell_def)
  have small: "len1 < 2 ^ 63"
    using assms(4) unfolding len1 by (auto simp: FileStream_size_def FileStream_tell_def min_def)
  have rs: "FileStream_readsome st s n = FileStreamImpl_read st s len1"
    by (simp add: FileStream_readsome_def len1_def)
  define bs where "bs = take len1 (drop (pos s) c)"
  have "sys_read s (fd st) len1
      = (Some bs, s\<lparr>calls := calls s @ [SysRead (fd st) len1],
                    pos := pos s + length bs, rfaults := []\<rparr>)"
    using assms(1,2) small
    by (auto simp: sys_read_def read_ready_def transfer_def Let_def bs_def)
  then have "FileStream_readsome st s n
      = (Inr bs, st\<lparr>currentOffset := currentOffset st + length bs\<rparr>,
         s\<lparr>calls := calls s @ [SysRead (fd st) len1], pos := pos s + length bs, rfaults := []\<rparr>)"
    by (simp add: rs FileStreamImpl_read_def)
  moreover have "rfaults s = []" using assms(1) by (simp add: read_ready_def)
  ultimately have "\<exists>s1. FileStream_readsome st s n
        = (Inr bs, st\<lparr>currentOffset := FileStream_tell st + length bs\<rparr>, s1)
      \<and> calls s1 = calls s @ [SysRead (fd st) len1] \<and> pos s1 = pos s + length bs
      \<and> disk s1 = disk s \<and> acc s1 = acc s \<and> fdnum s1 = fdnum s
      \<and> wfaults s1 = wfaults s \<and> rfaults s1 = rfaults s"
    by (simp add: FileStream_tell_def)
  then show ?thesis
    unfolding bs_def len1 by (auto simp: FileStream_size_def FileStream_tell_def)
qed

theorem eof_clamp_witness:
  "read_ready \<lparr>mode = Read, filePath = ''f'', fileSize = 5, currentOffset = 2, buffer = [], fd = 3\<rparr>
      \<lparr>fdnum = 3, disk = Some [1, 2, 3, 4, 5], acc = Some O_RDONLY, pos = 2, wfaults = [],
         rfaults = [], calls = [SysOpen, SysRead 3 2]\<rparr>
   \<and> FileStream_tell \<lparr>mode = Read, filePath = ''f'', fileSize = 5, currentOffset = 2, buffer = [], fd = 3\<rparr>
      \<le> FileStream_size \<lparr>mode = Read, filePath = ''f'', fileSize = 5, currentOffset = 2, buffer = [], fd = 3\<rparr>
   \<and> FileStream_size \<lparr>mode = Read, filePath = ''f'', fileSize = 5, currentOffset = 2, buffer = [], fd = 3\<rparr> < 2 ^ 63
   \<and> FileStream_tell \<lparr>mode = Read, filePath = ''f'', fileSize = 5, currentOffset = 2, buffer = [], fd = 3\<rparr> + 100 < 2 ^ 64
   \<and> FileStream_readsome
        \<lparr>mode = Read, filePath = ''f'', fileSize = 5, currentOffset = 2, buffer = [], fd = 3\<rparr>
        \<lparr>fdnum = 3, disk = Some [1, 2, 3, 4, 5], acc = Some O_RDONLY, pos = 2, wfaults = [],
         rfaults = [], calls = [SysOpen, SysRead 3 2]\<rparr> 100
     = (Inr [3, 4, 5],
        \<lparr>mode = Read, filePath = ''f'', fileSize = 5, currentOffset = 5, buffer = [], fd = 3\<rparr>,
        \<lparr>fdnum = 3, disk = Some [1, 2, 3, 4, 5], acc = Some O_RDONLY, pos = 5, wfaults = [],
           rfaults = [], calls = [SysOpen, SysRead 3 2, SysRead 3 3]\<rparr>)
   \<and> length [3, 4, 5 :: byte_t]
      = FileStream_size \<lparr>mode = Read, filePath = ''f'', fileSize = 5, currentOffset = 2, buffer = [], fd = 3\<rparr>
        - FileStream_tell \<lparr>mode = Read, filePath = ''f'', fileSize = 5, currentOffset = 2, buffer = [], fd = 3\<rparr>"
proof -
  let ?st = "\<lparr>mode = Read, filePath = ''f'', fileSize = 5, currentOffset = 2, buffer = [], fd = 3\<rparr>"
  let ?s = "\<lparr>fdnum = 3, disk = Some [1, 2, 3, 4, 5], acc = Some O_RDONLY, pos = 2, wfaults = [],
         rfaults = [], calls = [SysOpen, SysRead 3 2]\<rparr>"
  have h1: "read_ready ?st ?s" by (simp add: read_ready_def)
  have h2: "disk ?s = Some [1, 2, 3, 4, 5]" by simp
  have h3: "FileStream_tell ?st \<le> FileStream_size ?st"
    by (simp add: FileStream_tell_def FileStream_size_def)
  have h4: "FileStream_size ?st < 2 ^ 63" by (simp add: FileStream_size_def)
  have h5: "FileStream_tell ?st + 100 < 2 ^ 64" by (simp add: FileStream_tell_def)
  have e: "FileStream_readsome ?st ?s 100
     = (Inr [3, 4, 5],
        \<lparr>mode = Read, filePath = ''f'', fileSize = 5, currentOffset = 5, buffer = [], fd = 3\<rparr>,
        \<lparr>fdnum = 3, disk = Some [1, 2, 3, 4, 5], acc = Some O_RDONLY, pos = 5, wfaults = [],
           rfaults = [], calls = [SysOpen, SysRead 3 2, SysRead 3 3]\<rparr>)"
    by (simp add: model_defs)
  from eof_clamp [OF h1 h2 h3 h4 h5] h1 h3 h4 h5 e show ?thesis
    by (simp add: FileStream_tell_def FileStream_size_def)
qed

theorem eof_clamp_counterexample:
  "run [OpSeek 100, OpSeek 0]
     (\<lparr>mode = ReadWrite, filePath = ''f'', fileSize = 0, currentOffset = 0, buffer = [], fd = 3\<rparr>,
      \<lparr>fdnum = 3, disk = Some [], acc = Some O_RDWR, pos = 0, wfaults = [], rfaults = [],
         calls = [SysOpen]\<rparr>)
   = Some
     (\<lparr>mode = ReadWrite, filePath = ''f'', fileSize = 100, currentOffset = 0, buffer = [], fd = 3\<rparr>,
      \<lparr>fdnum = 3, disk = Some [], acc = Some O_RDWR, pos = 0, wfaults = [], rfaults = [],
         calls = [SysOpen, SysLseek 3 100, SysLseek 3 0]\<rparr>)
   \<and> FileStream_readsome
       \<lparr>mode = ReadWrite, filePath = ''f'', fileSize = 100, currentOffset = 0, buffer = [], fd = 3\<rparr>
       \<lparr>fdnum = 3, disk = Some [], acc = Some O_RDWR, pos = 0, wfaults = [], rfaults = [],
          calls = [SysOpen, SysLseek 3 100, SysLseek 3 0]\<rparr> 200
     = (Inr [],
       \<lparr>mode = ReadWrite, filePath = ''f'', fileSize = 100, currentOffset = 0, buffer = [], fd = 3\<rparr>,
       \<lparr>fdnum = 3, disk = Some [], acc = Some O_RDWR, pos = 0, wfaults = [], rfaults = [],
          calls = [SysOpen, SysLseek 3 100, SysLseek 3 0, SysRead 3 100]\<rparr>)
   \<and> FileStream_size
       \<lparr>mode = ReadWrite, filePath = ''f'', fileSize = 100, currentOffset = 0, buffer = [], fd = 3\<rparr>
     - FileStream_tell
       \<lparr>mode = ReadWrite, filePath = ''f'', fileSize = 100, currentOffset = 0, buffer = [], fd = 3\<rparr>
     = 100
   \<and> length ([] :: byte_t list) \<noteq> 100
   \<and> FileStream_readsome
        \<lparr>mode = Read, filePath = ''f'', fileSize = 5, currentOffset = 2, buffer = [], fd = 3\<rparr>
        \<lparr>fdnum = 3, disk = Some [1, 2, 3, 4, 5], acc = Some O_RDONLY, pos = 2, wfaults = [],
         rfaults = [], calls = [SysOpen, SysRead 3 2]\<rparr> 18446744073709551615
     = (Inl ReadError,
        \<lparr>mode = Read, filePath = ''f'', fileSize = 5, currentOffset = 2, buffer = [], fd = 3\<rparr>,
        \<lparr>fdnum = 3, disk = Some [1, 2, 3, 4, 5], acc = Some O_RDONLY, pos = 2, wfaults = [],
           rfaults = [], calls = [SysOpen, SysRead 3 2, SysRead 3 18446744073709551615]\<rparr>)"
  by (simp add: model_defs)

section \<open>Seeking\<close>

lemma seek_succeeds:
  assumes "fd st = int (fdnum s)" and "acc s \<noteq> None" and "p < 2 ^ 63"
    and "\<not> FileStream_canWrite st \<or> buffer st = [] \<or> write_ready st s"
  shows "fst (FileStreamImpl_seek st s p) = Inr ()"
proof (cases "\<not> FileStream_canWrite st \<or> buffer st = []")
  case True
  then have "FileStreamImpl_flush st s = (Inr 0, st, s)" by (rule flush_noop)
  with assms(1,2,3) show ?thesis
    by (simp add: FileStreamImpl_seek_def sys_lseek_def Let_def)
next
  case False
  with assms(4) have cw: "FileStream_canWrite st" and ne: "buffer st \<noteq> []"
    and rd: "write_ready st s" by auto
  from rd obtain c where d: "disk s = Some c" by (auto simp: write_ready_def)
  let ?w = "sys_write s (fd st) (buffer st)"
  note w = sys_write_ready [OF rd d, of "buffer st"]
  have "FileStreamImpl_flush st s = (Inr (length (buffer st)), st\<lparr>buffer := []\<rparr>, snd ?w)"
    using flush_writable [OF cw ne, of s] w(1) by (cases ?w) simp
  with assms(1,2,3) w(4,8) show ?thesis
    by (simp add: FileStreamImpl_seek_def sys_lseek_def Let_def)
qed

lemma sys_lseek_Some:
  "sys_lseek s d p = (Some q, s1) \<Longrightarrow>
     s1 = s\<lparr>calls := calls s @ [SysLseek d p], pos := p\<rparr>"
  by (auto simp: sys_lseek_def Let_def split: if_splits)

text \<open>
  C6 (seek semantics).  A \<open>seek(P)\<close> that returns has first flushed: on a writable stream
  with staged bytes it has issued one native write of all staged bytes and emptied the
  buffer before it repositioned the native file (with native writes served, the staged bytes
  are then in the file at the old native position); otherwise there is nothing to flush and
  the native seek is the only call.  Afterwards \<open>tell() = P\<close>, the native position is \<open>P\<close>,
  and \<open>size()\<close> is the larger of the old \<open>size()\<close> and \<open>P\<close>: exactly \<open>P\<close> when \<open>P\<close> is
  beyond the old size, although no byte was written.
\<close>

theorem seek_semantics:
  assumes "FileStream_seek st s p = (Inr (), st1, s1)"
  shows "FileStream_tell st1 = p \<and> FileStream_size st1 = max (FileStream_size st) p
       \<and> pos s1 = p
       \<and> (if FileStream_canWrite st \<and> buffer st \<noteq> []
          then buffer st1 = []
             \<and> calls s1 = calls s @ [SysWrite (fd st) (buffer st), SysLseek (fd st) p]
          else buffer st1 = buffer st \<and> calls s1 = calls s @ [SysLseek (fd st) p])
       \<and> (FileStream_canWrite st \<and> write_ready st s
          \<longrightarrow> disk s1 = map_option (\<lambda>c. store c (pos s) (buffer st)) (disk s))"
proof -
  from assms have sk: "FileStreamImpl_seek st s p = (Inr (), st1, s1)"
    by (simp add: FileStream_seek_def)
  obtain r2 st2 s2 where fl: "FileStreamImpl_flush st s = (r2, st2, s2)"
    using prod_cases3 by blast
  from sk fl obtain k where r2: "r2 = Inr k"
    by (cases r2) (auto simp: FileStreamImpl_seek_def)
  obtain o3 s3 where ls: "sys_lseek s2 (fd st2) p = (o3, s3)" by (cases "sys_lseek s2 (fd st2) p")
  from sk fl r2 ls obtain q where o3: "o3 = Some q"
    by (cases o3) (auto simp: FileStreamImpl_seek_def)
  have s3: "s3 = s2\<lparr>calls := calls s2 @ [SysLseek (fd st2) p], pos := p\<rparr>"
    using sys_lseek_Some ls o3 by simp
  from sk fl r2 ls o3
  have st1: "st1 = st2\<lparr>currentOffset := p, fileSize := max (fileSize st2) p\<rparr>" and s1: "s1 = s3"
    by (auto simp: FileStreamImpl_seek_def Let_def max_def)
  note fr = flush_frame [OF fl]
  show ?thesis
  proof (cases "FileStream_canWrite st \<and> buffer st \<noteq> []")
    case True
    then have cw: "FileStream_canWrite st" and ne: "buffer st \<noteq> []" by auto
    obtain o4 s4 where w: "sys_write s (fd st) (buffer st) = (o4, s4)"
      by (cases "sys_write s (fd st) (buffer st)")
    from fl r2 w have st2: "st2 = st\<lparr>buffer := []\<rparr>" and s2: "s2 = s4"
      unfolding flush_writable [OF cw ne] by (auto split: option.splits)
    have c4: "calls s4 = calls s @ [SysWrite (fd st) (buffer st)]"
      using w by (auto simp: sys_write_def Let_def split: if_splits option.splits)
    have d4: "write_ready st s \<Longrightarrow> disk s4 = map_option (\<lambda>c. store c (pos s) (buffer st)) (disk s)"
    proof -
      assume rd: "write_ready st s"
      then obtain c where d: "disk s = Some c" by (auto simp: write_ready_def)
      from sys_write_ready(2) [OF rd d, of "buffer st"] w d show ?thesis by simp
    qed
    show ?thesis
      using True st1 s1 s3 st2 s2 c4 d4 fr
      by (simp add: FileStream_tell_def FileStream_size_def)
  next
    case False
    then have "FileStreamImpl_flush st s = (Inr 0, st, s)" by (auto intro: flush_noop)
    with fl have st2: "st2 = st" and s2: "s2 = s" by auto
    have "disk s = map_option (\<lambda>c. store c (pos s) (buffer st)) (disk s)"
      if "FileStream_canWrite st"
    proof -
      from that False have "buffer st = []" by simp
      then show ?thesis by (cases "disk s") (simp_all add: store_def)
    qed
    then show ?thesis
      using False st1 s1 s3 st2 s2
      by (auto simp: FileStream_tell_def FileStream_size_def)
  qed
qed

theorem seek_semantics_witness:
  "FileStream_seek
      \<lparr>mode = ReadWrite, filePath = ''f'', fileSize = 3, currentOffset = 3, buffer = [7, 8, 9], fd = 3\<rparr>
      \<lparr>fdnum = 3, disk = Some [], acc = Some O_RDWR, pos = 0, wfaults = [], rfaults = [], calls = [SysOpen]\<rparr> 10
    = (Inr (),
      \<lparr>mode = ReadWrite, filePath = ''f'', fileSize = 10, currentOffset = 10, buffer = [], fd = 3\<rparr>,
      \<lparr>fdnum = 3, disk = Some [7, 8, 9], acc = Some O_RDWR, pos = 10, wfaults = [], rfaults = [],
         calls = [SysOpen, SysWrite 3 [7, 8, 9], SysLseek 3 10]\<rparr>)
   \<and> FileStream_tell
       \<lparr>mode = ReadWrite, filePath = ''f'', fileSize = 10, currentOffset = 10, buffer = [], fd = 3\<rparr> = 10
   \<and> FileStream_size
       \<lparr>mode = ReadWrite, filePath = ''f'', fileSize = 10, currentOffset = 10, buffer = [], fd = 3\<rparr>
     = max (FileStream_size
       \<lparr>mode = ReadWrite, filePath = ''f'', fileSize = 3, currentOffset = 3, buffer = [7, 8, 9], fd = 3\<rparr>) 10
   \<and> FileStream_canWrite
       \<lparr>mode = ReadWrite, filePath = ''f'', fileSize = 3, currentOffset = 3, buffer = [7, 8, 9], fd = 3\<rparr>
   \<and> write_ready
       \<lparr>mode = ReadWrite, filePath = ''f'', fileSize = 3, currentOffset = 3, buffer = [7, 8, 9], fd = 3\<rparr>
       \<lparr>fdnum = 3, disk = Some [], acc = Some O_RDWR, pos = 0, wfaults = [], rfaults = [], calls = [SysOpen]\<rparr>"
proof -
  have h: "FileStream_seek
      \<lparr>mode = ReadWrite, filePath = ''f'', fileSize = 3, currentOffset = 3, buffer = [7, 8, 9], fd = 3\<rparr>
      \<lparr>fdnum = 3, disk = Some [], acc = Some O_RDWR, pos = 0, wfaults = [], rfaults = [], calls = [SysOpen]\<rparr> 10
    = (Inr (),
      \<lparr>mode = ReadWrite, filePath = ''f'', fileSize = 10, currentOffset = 10, buffer = [], fd = 3\<rparr>,
      \<lparr>fdnum = 3, disk = Some [7, 8, 9], acc = Some O_RDWR, pos = 10, wfaults = [], rfaults = [],
         calls = [SysOpen, SysWrite 3 [7, 8, 9], SysLseek 3 10]\<rparr>)"
    by (simp add: model_defs)
  have c: "FileStream_canWrite
       \<lparr>mode = ReadWrite, filePath = ''f'', fileSize = 3, currentOffset = 3, buffer = [7, 8, 9], fd = 3\<rparr>"
    by (simp add: FileStream_canWrite_def)
  have r: "write_ready
       \<lparr>mode = ReadWrite, filePath = ''f'', fileSize = 3, currentOffset = 3, buffer = [7, 8, 9], fd = 3\<rparr>
       \<lparr>fdnum = 3, disk = Some [], acc = Some O_RDWR, pos = 0, wfaults = [], rfaults = [], calls = [SysOpen]\<rparr>"
    by (simp add: write_ready_def )
  from seek_semantics [OF h] h c r show ?thesis by simp
qed

section \<open>Short flushes\<close>

text \<open>
  With an empty buffer at the start of the call the bytes in the buffer are the bytes the
  pass has staged, and a native write that transfers fewer of them ends the call: \<open>write\<close>
  returns the count transferred and leaves \<open>currentOffset\<close> and \<open>fileSize\<close> alone.
\<close>

lemma short_flush_first_pass:
  assumes "FileStream_canWrite st" and "buffer st = []"
    and "k = min (length data) kBufferSize" and "k < length data"
    and "sys_write s (fd st) (take k data) = (Some f, s1)" and "f < k"
  shows "FileStreamImpl_write st s data = Some (Inr f, st\<lparr>buffer := []\<rparr>, s1)"
proof -
  have k: "k = min (length data - 0) (kBufferSize - length (buffer st))"
    using assms(2,3) by simp
  let ?st1 = "st\<lparr>buffer := buffer st @ take k (drop 0 data)\<rparr>"
  have cw1: "FileStream_canWrite ?st1" using assms(1) by (simp add: FileStream_canWrite_def)
  have ne: "buffer ?st1 \<noteq> []" using assms(2,3,4,6) by auto
  have "FileStreamImpl_flush ?st1 s = (Inr f, st\<lparr>buffer := []\<rparr>, s1)"
    using flush_writable [OF cw1 ne, of s] assms(2,5) by simp
  then have "write_body st s data 0 = Stop (Inr f, st\<lparr>buffer := []\<rparr>, s1)"
    using assms(4,6) by (simp add: write_body_k [OF k])
  from write_loop_stop [OF this] show ?thesis by (simp add: FileStreamImpl_write_def)
qed

text \<open>
  C8 (short-flush frame) at a stream that already holds staged bytes.  Ten bytes are
  staged by a first write.  A second write of 4096 bytes stages 4086 of them and flushes
  the full buffer of 4096 bytes; the native write transfers 4090.  \<open>write\<close> compares the
  4090 with the 4086 bytes it has just staged, not with the 4096 bytes in the buffer: it
  does not return early, drops the six bytes the native write left behind, and returns
  4096 with \<open>tell()\<close> and \<open>size()\<close> moved from 10 to 4106, while the file holds 4100 bytes.
\<close>

theorem short_flush_behind_staged_bytes:
  "FileStream_writesome
      \<lparr>mode = Write, filePath = ''f'', fileSize = 0, currentOffset = 0, buffer = [], fd = 3\<rparr>
      \<lparr>fdnum = 3, disk = Some [], acc = Some O_WRONLY, pos = 0, wfaults = [Short 4090], rfaults = [],
         calls = [SysOpen]\<rparr> (replicate 10 1)
    = Some (Inr 10,
      \<lparr>mode = Write, filePath = ''f'', fileSize = 10, currentOffset = 10, buffer = replicate 10 1,
         fd = 3\<rparr>,
      \<lparr>fdnum = 3, disk = Some [], acc = Some O_WRONLY, pos = 0, wfaults = [Short 4090], rfaults = [],
         calls = [SysOpen]\<rparr>)
   \<and> FileStream_writesome
      \<lparr>mode = Write, filePath = ''f'', fileSize = 10, currentOffset = 10, buffer = replicate 10 1,
         fd = 3\<rparr>
      \<lparr>fdnum = 3, disk = Some [], acc = Some O_WRONLY, pos = 0, wfaults = [Short 4090], rfaults = [],
         calls = [SysOpen]\<rparr> (replicate 4096 2)
    = Some (Inr 4096,
      \<lparr>mode = Write, filePath = ''f'', fileSize = 4106, currentOffset = 4106, buffer = [], fd = 3\<rparr>,
      \<lparr>fdnum = 3, disk = Some (replicate 10 1 @ replicate 4080 2 @ replicate 10 2), acc = Some O_WRONLY,
         pos = 4100, wfaults = [], rfaults = [],
         calls = [SysOpen, SysWrite 3 (replicate 10 1 @ replicate 4086 2),
                  SysWrite 3 (replicate 10 2)]\<rparr>)"
  by (simp add: model_defs write_loop.simps)

end
